theory Spec2Isabelle
  imports Complex_Main "HOL-Library.Monad_Syntax"
begin

section \<open>Conventions of the embedding\<close>

text \<open>
  The functions of \<^verbatim>\<open>utils/general.py\<close> compute on tensors of floating-point numbers.
  Here a tensor of shape \<open>n \<times> k\<close> is a list of rows, a row is a tuple, and a floating-point
  number is a real: every operation is the exact operation on reals, without rounding,
  overflow or underflow. The one thing kept of floating-point arithmetic is the result
  of a division by zero: where the source divides, the model divides with \<open>fdiv\<close>, whose
  result \<open>None\<close> stands for the non-finite value (NaN or an infinity) that the division
  yields in the source; a non-finite value stays non-finite through the arithmetic that
  follows, and every comparison with NaN is false.
\<close>

type_synonym row4 = "real \<times> real \<times> real \<times> real"

definition fdiv :: "real \<Rightarrow> real \<Rightarrow> real option" where
  "fdiv a b = (if b = 0 then None else Some (a / b))"

text \<open>The literal \<^verbatim>\<open>1e-16\<close> of the source.\<close>

definition eps :: real where
  "eps = 1 / 10 ^ 16"

text \<open>\<^verbatim>\<open>tensor.clamp(0)\<close>: the lower bound 0.\<close>

definition clamp0 :: "real \<Rightarrow> real" where
  "clamp0 v = max v 0"

section \<open>Geometric primitives\<close>

subsection \<open>Box formats\<close>

text \<open>
  \<^verbatim>\<open>
  def xyxy2xywh(x):
      y = torch.zeros_like(x) if isinstance(x, torch.Tensor) else np.zeros_like(x)
      y[:, 0] = (x[:, 0] + x[:, 2]) / 2  # x center
      y[:, 1] = (x[:, 1] + x[:, 3]) / 2  # y center
      y[:, 2] = x[:, 2] - x[:, 0]  # width
      y[:, 3] = x[:, 3] - x[:, 1]  # height
      return y
  \<close>
\<close>

fun xyxy2xywh_row :: "row4 \<Rightarrow> row4" where
  "xyxy2xywh_row (x0, x1, x2, x3) = ((x0 + x2) / 2, (x1 + x3) / 2, x2 - x0, x3 - x1)"

definition xyxy2xywh :: "row4 list \<Rightarrow> row4 list" where
  "xyxy2xywh x = map xyxy2xywh_row x"

text \<open>
  \<^verbatim>\<open>
  def xywh2xyxy(x):
      y = torch.zeros_like(x) if isinstance(x, torch.Tensor) else np.zeros_like(x)
      y[:, 0] = x[:, 0] - x[:, 2] / 2  # top left x
      y[:, 1] = x[:, 1] - x[:, 3] / 2  # top left y
      y[:, 2] = x[:, 0] + x[:, 2] / 2  # bottom right x
      y[:, 3] = x[:, 1] + x[:, 3] / 2  # bottom right y
      return y
  \<close>
\<close>

fun xywh2xyxy_row :: "row4 \<Rightarrow> row4" where
  "xywh2xyxy_row (x0, x1, x2, x3) = (x0 - x2 / 2, x1 - x3 / 2, x0 + x2 / 2, x1 + x3 / 2)"

definition xywh2xyxy :: "row4 list \<Rightarrow> row4 list" where
  "xywh2xyxy x = map xywh2xyxy_row x"

subsection \<open>Intersection over union\<close>

text \<open>
  \<^verbatim>\<open>torch.atan(w / h)\<close> in the CIoU branch of \<^verbatim>\<open>bbox_iou\<close>. The quotient has no
  epsilon; for \<open>h = 0\<close> it is an infinity when \<open>w \<noteq> 0\<close>, whose arc tangent is the finite
  \<open>\<plusminus>\<pi>/2\<close>, and NaN when \<open>w = 0\<close>. A zero height is the difference of two equal
  coordinates, hence the positive zero.
\<close>

definition atan_div :: "real \<Rightarrow> real \<Rightarrow> real option" where
  "atan_div w h =
     (if h = 0 then (if w = 0 then None else Some (if 0 < w then pi / 2 else - (pi / 2)))
      else Some (arctan (w / h)))"

text \<open>
  \<^verbatim>\<open>bbox_iou(box1, box2, x1y1x2y2=True, GIoU=False, DIoU=False, CIoU=False)\<close>
  works elementwise on the columns of its arguments; the model is its value on one pair
  of boxes. The branches are nested as in the source.
\<close>

definition bbox_iou :: "row4 \<Rightarrow> row4 \<Rightarrow> bool \<Rightarrow> bool \<Rightarrow> bool \<Rightarrow> bool \<Rightarrow> real option" where
  "bbox_iou box1 box2 x1y1x2y2 GIoU DIoU CIoU =
     (let (b1_x1, b1_y1, b1_x2, b1_y2) = (if x1y1x2y2 then box1 else xywh2xyxy_row box1);
          (b2_x1, b2_y1, b2_x2, b2_y2) = (if x1y1x2y2 then box2 else xywh2xyxy_row box2);
          inter = clamp0 (min b1_x2 b2_x2 - max b1_x1 b2_x1) *
                  clamp0 (min b1_y2 b2_y2 - max b1_y1 b2_y1);
          w1 = b1_x2 - b1_x1; h1 = b1_y2 - b1_y1;
          w2 = b2_x2 - b2_x1; h2 = b2_y2 - b2_y1;
          union = (w1 * h1 + eps) + w2 * h2 - inter
      in do {
        iou \<leftarrow> fdiv inter union;
        if GIoU \<or> DIoU \<or> CIoU then
          (let cw = max b1_x2 b2_x2 - min b1_x1 b2_x1;
               ch = max b1_y2 b2_y2 - min b1_y1 b2_y1
           in if GIoU then
                (let c_area = cw * ch + eps
                 in do { q \<leftarrow> fdiv (c_area - union) c_area; Some (iou - q) })
              else if DIoU \<or> CIoU then
                (let c2 = cw ^ 2 + ch ^ 2 + eps;
                     rho2 = ((b2_x1 + b2_x2) - (b1_x1 + b1_x2)) ^ 2 / 4 +
                            ((b2_y1 + b2_y2) - (b1_y1 + b1_y2)) ^ 2 / 4
                 in if DIoU then do { q \<leftarrow> fdiv rho2 c2; Some (iou - q) }
                    else if CIoU then do {
                      a2 \<leftarrow> atan_div w2 h2;
                      a1 \<leftarrow> atan_div w1 h1;
                      let v = (4 / pi ^ 2) * (a2 - a1) ^ 2;
                      alpha \<leftarrow> fdiv v (1 - iou + v + eps);
                      q \<leftarrow> fdiv rho2 c2;
                      Some (iou - (q + v * alpha)) }
                    else Some iou)
              else Some iou)
        else Some iou })"

text \<open>
  \<^verbatim>\<open>
  def box_iou(box1, box2):
      def box_area(box):
          return (box[2] - box[0]) * (box[3] - box[1])
      area1 = box_area(box1.T)
      area2 = box_area(box2.T)
      inter = (torch.min(box1[:, None, 2:], box2[:, 2:]) -
               torch.max(box1[:, None, :2], box2[:, :2])).clamp(0).prod(2)
      return inter / (area1[:, None] + area2 - inter)
  \<close>
  \<open>box_iou_elem\<close> is the entry of the \<open>N \<times> M\<close> matrix for one row of each argument.
\<close>

fun box_area :: "row4 \<Rightarrow> real" where
  "box_area (x1, y1, x2, y2) = (x2 - x1) * (y2 - y1)"

fun box_inter :: "row4 \<Rightarrow> row4 \<Rightarrow> real" where
  "box_inter (a_x1, a_y1, a_x2, a_y2) (b_x1, b_y1, b_x2, b_y2) =
     clamp0 (min a_x2 b_x2 - max a_x1 b_x1) * clamp0 (min a_y2 b_y2 - max a_y1 b_y1)"

definition box_iou_elem :: "row4 \<Rightarrow> row4 \<Rightarrow> real option" where
  "box_iou_elem b1 b2 =
     (let area1 = box_area b1; area2 = box_area b2; inter = box_inter b1 b2
      in fdiv inter (area1 + area2 - inter))"

definition box_iou :: "row4 list \<Rightarrow> row4 list \<Rightarrow> real option list list" where
  "box_iou box1 box2 = map (\<lambda>b1. map (\<lambda>b2. box_iou_elem b1 b2) box2) box1"

text \<open>
  \<^verbatim>\<open>
  def wh_iou(wh1, wh2):
      wh1 = wh1[:, None]  # [N,1,2]
      wh2 = wh2[None]  # [1,M,2]
      inter = torch.min(wh1, wh2).prod(2)  # [N,M]
      return inter / (wh1.prod(2) + wh2.prod(2) - inter)
  \<close>
\<close>

fun wh_iou_elem :: "real \<times> real \<Rightarrow> real \<times> real \<Rightarrow> real option" where
  "wh_iou_elem (w1, h1) (w2, h2) =
     (let inter = min w1 w2 * min h1 h2 in fdiv inter (w1 * h1 + w2 * h2 - inter))"

definition wh_iou :: "(real \<times> real) list \<Rightarrow> (real \<times> real) list \<Rightarrow> real option list list" where
  "wh_iou wh1 wh2 = map (\<lambda>a. map (\<lambda>b. wh_iou_elem a b) wh2) wh1"

section \<open>Target assignment\<close>

text \<open>
  \<^verbatim>\<open>build_targets(p, targets, model)\<close> reads of the model the detection module
  \<^verbatim>\<open>det\<close> (its fields \<^verbatim>\<open>na\<close>, \<^verbatim>\<open>nl\<close> and \<^verbatim>\<open>anchors\<close>, a tensor of shape
  \<open>(nl, na, 2)\<close>) and the threshold \<^verbatim>\<open>model.hyp['anchor_t']\<close>, and of each \<^verbatim>\<open>p[i]\<close>
  its shape \<open>(bs, na, ny, nx, no)\<close> only. The class of the detection module is not part
  of \<^verbatim>\<open>utils/general.py\<close>: the module is a record here, and the shape of its anchor
  tensor is the predicate \<open>wf_detect\<close>.
\<close>

datatype py_error = IndexError | RuntimeError | ValueError

record detect =
  det_na :: nat
  det_nl :: nat
  det_anchors :: "(real \<times> real) list list"

definition wf_detect :: "detect \<Rightarrow> bool" where
  "wf_detect det =
     (0 < det_na det \<and> length (det_anchors det) = det_nl det \<and>
      list_all (\<lambda>an. length an = det_na det \<and> list_all (\<lambda>(aw, ah). aw \<noteq> 0 \<and> ah \<noteq> 0) an)
        (det_anchors det))"

type_synonym row6 = "real \<times> real \<times> real \<times> real \<times> real \<times> real"
type_synonym row7 = "real \<times> real \<times> real \<times> real \<times> real \<times> real \<times> real"
type_synonym shape5 = "nat \<times> nat \<times> nat \<times> nat \<times> nat"

text \<open>\<^verbatim>\<open>tensor.long()\<close>: conversion of a float to an integer, truncating towards zero.\<close>

definition long :: "real \<Rightarrow> int" where
  "long v = (if 0 \<le> v then \<lfloor>v\<rfloor> else \<lceil>v\<rceil>)"

text \<open>
  \<^verbatim>\<open>
  ai = torch.arange(na, device=targets.device).float().view(na, 1).repeat(1, nt)
  targets = torch.cat((targets.repeat(na, 1, 1), ai[:, :, None]), 2)  # append anchor indices
  \<close>
  The result has shape \<open>(na, nt, 7)\<close>: one copy of the targets for each anchor index,
  the index in column 6.
\<close>

fun append_anchor :: "row6 \<Rightarrow> nat \<Rightarrow> row7" where
  "append_anchor (b, c, x, y, w, h) a = (b, c, x, y, w, h, real a)"

definition repeat_targets :: "nat \<Rightarrow> row6 list \<Rightarrow> row7 list list" where
  "repeat_targets n targets = map (\<lambda>a. map (\<lambda>t. append_anchor t a) targets) [0..<n]"

text \<open>
  \<^verbatim>\<open>
  g = 0.5
  off = torch.tensor([[0, 0], [1, 0], [0, 1], [-1, 0], [0, -1]], device=targets.device).float() * g
  \<close>
\<close>

definition grid_g :: real where
  "grid_g = 0.5"

definition off :: "(real \<times> real) list" where
  "off = map (\<lambda>(u, v). (u * grid_g, v * grid_g)) [(0, 0), (1, 0), (0, 1), (- 1, 0), (0, - 1)]"

text \<open>
  \<^verbatim>\<open>
  gain[2:6] = torch.tensor(p[i].shape)[[3, 2, 3, 2]]
  t = targets * gain
  \<close>
  The other entries of \<^verbatim>\<open>gain\<close> are 1.
\<close>

fun mul_gain :: "real \<times> real \<Rightarrow> row7 \<Rightarrow> row7" where
  "mul_gain (nx, ny) (b, c, x, y, w, h, a) = (b, c, x * nx, y * ny, w * nx, h * ny, a)"

text \<open>
  \<^verbatim>\<open>
  r = t[:, :, 4:6] / anchors[:, None]  # wh ratio
  j = torch.max(r, 1. / r).max(2)[0] < model.hyp['anchor_t']
  t = t[j]
  \<close>
  A ratio \<open>r = 0\<close> has \<open>1 / r = \<infinity>\<close>, which is not below the threshold. The sides of
  an anchor are not zero (\<open>wf_detect\<close>).
\<close>

fun anchor_match :: "real \<Rightarrow> real \<times> real \<Rightarrow> row7 \<Rightarrow> bool" where
  "anchor_match anchor_t (aw, ah) (b, c, x, y, w, h, a) =
     (let rw = w / aw; rh = h / ah
      in rw \<noteq> 0 \<and> rh \<noteq> 0 \<and> max (max rw (1 / rw)) (max rh (1 / rh)) < anchor_t)"

definition shape_filter :: "real \<Rightarrow> (real \<times> real) list \<Rightarrow> row7 list list \<Rightarrow> row7 list" where
  "shape_filter anchor_t anchors_i t =
     concat (map (\<lambda>(an, ts). filter (anchor_match anchor_t an) ts) (zip anchors_i t))"

text \<open>
  \<^verbatim>\<open>
  gxy = t[:, 2:4]
  gxi = gain[[2, 3]] - gxy  # inverse
  j, k = ((gxy % 1. < g) & (gxy > 1.)).T
  l, m = ((gxi % 1. < g) & (gxi > 1.)).T
  j = torch.stack((torch.ones_like(j), j, k, l, m))
  \<close>
  \<open>neighbours\<close> is the column of the mask for one row of \<open>t\<close>. The remainder \<^verbatim>\<open>% 1.\<close>
  has the sign of the divisor: it is the fractional part \<open>v - \<lfloor>v\<rfloor>\<close>.
\<close>

fun neighbours :: "real \<times> real \<Rightarrow> row7 \<Rightarrow> bool list" where
  "neighbours (nx, ny) (b, c, x, y, w, h, a) =
     [True,
      frac x < grid_g \<and> x > 1,
      frac y < grid_g \<and> y > 1,
      frac (nx - x) < grid_g \<and> nx - x > 1,
      frac (ny - y) < grid_g \<and> ny - y > 1]"

text \<open>
  \<^verbatim>\<open>
  t = t.repeat((5, 1, 1))[j]
  offsets = (torch.zeros_like(gxy)[None] + off[:, None])[j]
  \<close>
  The mask selects, direction by direction, the rows of \<open>t\<close>; each selected row is
  paired with the offset of its direction.
\<close>

definition expand :: "real \<times> real \<Rightarrow> row7 list \<Rightarrow> (row7 \<times> real \<times> real) list" where
  "expand gain t =
     concat (map (\<lambda>d. map (\<lambda>r. (r, off ! d)) (filter (\<lambda>r. neighbours gain r ! d) t)) [0..<5])"

text \<open>
  The rows of one scale and their offsets: the body of the loop up to the \<^verbatim>\<open>else\<close>
  branch
  \<^verbatim>\<open>
  else:
      t = targets[0]
      offsets = 0
  \<close>
  The division by the anchors broadcasts \<open>(na, nt, 2)\<close> against \<open>(len(anchors), 1, 2)\<close>,
  and \<^verbatim>\<open>targets[0]\<close> indexes a tensor of shape \<open>(na, 0, 7)\<close>.
\<close>

definition scale_rows ::
  "nat \<Rightarrow> real \<Rightarrow> (real \<times> real) list \<Rightarrow> shape5 \<Rightarrow> row6 list \<Rightarrow>
     py_error + (row7 \<times> real \<times> real) list" where
  "scale_rows n_a anchor_t anchors_i shp targets =
     (case shp of (bs, pa, ny, nx, no) \<Rightarrow>
        let gain = (real nx, real ny);
            targets3 = repeat_targets n_a targets;
            t = map (map (mul_gain gain)) targets3
        in if targets \<noteq> [] then
             (if length anchors_i \<noteq> n_a then Inl RuntimeError
              else Inr (expand gain (shape_filter anchor_t anchors_i t)))
           else (case targets3 of [] \<Rightarrow> Inl IndexError
                 | t0 # _ \<Rightarrow> Inr (map (\<lambda>r. (r, (0, 0))) t0)))"

text \<open>
  \<^verbatim>\<open>
  b, c = t[:, :2].long().T  # image_index, class
  gxy = t[:, 2:4]  # grid xy
  gwh = t[:, 4:6]  # grid wh
  gij = (gxy - offsets).long()
  gi, gj = gij.T
  a = t[:, 6].long()
  indices.append((b, a, gj, gi))
  tbox.append(torch.cat((gxy - gij, gwh), 1))
  ttar.append(torch.cat((gxy, gwh), 1))        # (x,y,w,h)
  anch.append(anchors[a])                      # anchors
  tcls.append(c)                               # class
  \<close>
\<close>

record scale_out =
  s_tcls :: "int list"
  s_tbox :: "row4 list"
  s_indices :: "int list \<times> int list \<times> int list \<times> int list"
  s_anch :: "(real \<times> real) list"
  s_ttar :: "row4 list"

fun row_b :: "row7 \<times> real \<times> real \<Rightarrow> int" where
  "row_b ((b, c, x, y, w, h, a), (ox, oy)) = long b"

fun row_c :: "row7 \<times> real \<times> real \<Rightarrow> int" where
  "row_c ((b, c, x, y, w, h, a), (ox, oy)) = long c"

fun row_a :: "row7 \<times> real \<times> real \<Rightarrow> int" where
  "row_a ((b, c, x, y, w, h, a), (ox, oy)) = long a"

fun row_gi :: "row7 \<times> real \<times> real \<Rightarrow> int" where
  "row_gi ((b, c, x, y, w, h, a), (ox, oy)) = long (x - ox)"

fun row_gj :: "row7 \<times> real \<times> real \<Rightarrow> int" where
  "row_gj ((b, c, x, y, w, h, a), (ox, oy)) = long (y - oy)"

fun row_tbox :: "row7 \<times> real \<times> real \<Rightarrow> row4" where
  "row_tbox ((b, c, x, y, w, h, a), (ox, oy)) =
     (x - of_int (long (x - ox)), y - of_int (long (y - oy)), w, h)"

fun row_ttar :: "row7 \<times> real \<times> real \<Rightarrow> row4" where
  "row_ttar ((b, c, x, y, w, h, a), (ox, oy)) = (x, y, w, h)"

definition assemble ::
  "(real \<times> real) list \<Rightarrow> (row7 \<times> real \<times> real) list \<Rightarrow> py_error + scale_out" where
  "assemble anchors_i rows =
     (if list_all (\<lambda>r. nat (row_a r) < length anchors_i) rows then
        Inr \<lparr> s_tcls = map row_c rows,
              s_tbox = map row_tbox rows,
              s_indices = (map row_b rows, map row_a rows, map row_gj rows, map row_gi rows),
              s_anch = map (\<lambda>r. anchors_i ! nat (row_a r)) rows,
              s_ttar = map row_ttar rows \<rparr>
      else Inl IndexError)"

definition build_scale ::
  "nat \<Rightarrow> real \<Rightarrow> (real \<times> real) list \<Rightarrow> shape5 \<Rightarrow> row6 list \<Rightarrow> py_error + scale_out" where
  "build_scale n_a anchor_t anchors_i shp targets =
     (case scale_rows n_a anchor_t anchors_i shp targets of
        Inl e \<Rightarrow> Inl e
      | Inr rows \<Rightarrow> assemble anchors_i rows)"

text \<open>
  The loop \<^verbatim>\<open>for i in range(det.nl)\<close> with its five lists
  \<^verbatim>\<open>tcls, tbox, indices, anch, ttar\<close>, which are the result.
\<close>

record targets_out =
  tcls :: "int list list"
  tbox :: "row4 list list"
  indices :: "(int list \<times> int list \<times> int list \<times> int list) list"
  anch :: "(real \<times> real) list list"
  ttar :: "row4 list list"

definition append_scale :: "targets_out \<Rightarrow> scale_out \<Rightarrow> targets_out" where
  "append_scale acc s =
     \<lparr> tcls = tcls acc @ [s_tcls s], tbox = tbox acc @ [s_tbox s],
       indices = indices acc @ [s_indices s], anch = anch acc @ [s_anch s],
       ttar = ttar acc @ [s_ttar s] \<rparr>"

fun build_loop ::
  "detect \<Rightarrow> real \<Rightarrow> shape5 list \<Rightarrow> row6 list \<Rightarrow> nat list \<Rightarrow> targets_out \<Rightarrow>
     py_error + targets_out" where
  "build_loop det anchor_t p targets [] acc = Inr acc"
| "build_loop det anchor_t p targets (i # scales) acc =
     (if i < length (det_anchors det) \<and> i < length p then
        (case build_scale (det_na det) anchor_t (det_anchors det ! i) (p ! i) targets of
           Inl e \<Rightarrow> Inl e
         | Inr s \<Rightarrow> build_loop det anchor_t p targets scales (append_scale acc s))
      else Inl IndexError)"

definition build_targets ::
  "shape5 list \<Rightarrow> row6 list \<Rightarrow> detect \<Rightarrow> real \<Rightarrow> py_error + targets_out" where
  "build_targets p targets det anchor_t =
     build_loop det anchor_t p targets [0..<det_nl det]
       \<lparr> tcls = [], tbox = [], indices = [], anch = [], ttar = [] \<rparr>"

section \<open>Non-maximum suppression\<close>

text \<open>
  \<^verbatim>\<open>non_max_suppression(prediction, conf_thres=0.1, iou_thres=0.6, merge=False,
  classes=None, agnostic=False)\<close>. The tensor \<^verbatim>\<open>prediction\<close> has shape
  \<open>(bs, n, 5 + nc)\<close>: it is the list of its images, an image is the list of its rows, and
  a row is the box \<open>(x, y, w, h)\<close>, the objectness and the list of the \<open>nc\<close> class
  scores. A row of the detections matrix \<^verbatim>\<open>x\<close> is the corner box, the confidence and
  the class index (a float that holds an integer in the source).
\<close>

type_synonym pred_row = "row4 \<times> real \<times> real list"
type_synonym cand = "row4 \<times> real \<times> nat"

text \<open>
  A returned row. The merge step divides the four coordinates by one sum of weights;
  \<open>None\<close> stands for the four non-finite coordinates of a division by zero.
\<close>

type_synonym det = "row4 option \<times> real \<times> nat"

text \<open>The settings \<^verbatim>\<open>max_wh = 4096\<close> and \<^verbatim>\<open>max_det = 300\<close>.\<close>

definition max_wh :: real where
  "max_wh = 4096"

definition max_det :: nat where
  "max_det = 300"

text \<open>
  \<^verbatim>\<open>
  x = x[xc[xi]]  # confidence
  x[:, 5:] *= x[:, 4:5]  # conf = obj_conf * cls_conf
  box = xywh2xyxy(x[:, :4])
  \<close>
  with \<^verbatim>\<open>xc = prediction[..., 4] > conf_thres\<close>.
\<close>

definition obj_filter :: "real \<Rightarrow> pred_row list \<Rightarrow> pred_row list" where
  "obj_filter conf_thres x = filter (\<lambda>(b, obj, cls). conf_thres < obj) x"

fun compute_conf :: "pred_row \<Rightarrow> pred_row" where
  "compute_conf (b, obj, cls) = (b, obj, map (\<lambda>s. s * obj) cls)"

text \<open>
  \<^verbatim>\<open>
  i, j = (x[:, 5:] > conf_thres).nonzero(as_tuple=False).T
  x = torch.cat((box[i], x[i, j + 5, None], j[:, None].float()), 1)
  \<close>
  The pairs \<open>(i, j)\<close> come row by row.
\<close>

fun multi_label_rows :: "real \<Rightarrow> pred_row \<Rightarrow> cand list" where
  "multi_label_rows conf_thres (b, obj, cls) =
     map (\<lambda>j. (xywh2xyxy_row b, cls ! j, j)) (filter (\<lambda>j. conf_thres < cls ! j) [0..<length cls])"

text \<open>
  \<^verbatim>\<open>
  conf, j = x[:, 5:].max(1, keepdim=True)
  x = torch.cat((box, conf, j.float()), 1)[conf.view(-1) > conf_thres]
  \<close>
  The maximum of a row with no class scores raises. \<open>argmax\<close> is the first index of the
  maximum.
\<close>

definition argmax :: "real list \<Rightarrow> nat" where
  "argmax xs = hd (filter (\<lambda>j. xs ! j = Max (set xs)) [0..<length xs])"

fun best_class_row :: "pred_row \<Rightarrow> py_error + cand" where
  "best_class_row (b, obj, cls) =
     (if cls = [] then Inl RuntimeError
      else Inr (xywh2xyxy_row b, Max (set cls), argmax cls))"

fun best_class_rows :: "pred_row list \<Rightarrow> py_error + cand list" where
  "best_class_rows [] = Inr []"
| "best_class_rows (r # rs) =
     (case best_class_row r of
        Inl e \<Rightarrow> Inl e
      | Inr c \<Rightarrow> (case best_class_rows rs of Inl e \<Rightarrow> Inl e | Inr cs \<Rightarrow> Inr (c # cs)))"

text \<open>
  The detections matrix of one image, up to the filter by class
  \<^verbatim>\<open>
  if classes:
      x = x[(x[:, 5:6] == torch.tensor(classes, device=x.device)).any(1)]
  \<close>
  An image with no row above the threshold is skipped (\<^verbatim>\<open>continue\<close>) before anything
  is computed; its matrix is empty here. \<^verbatim>\<open>classes\<close> is a list, empty for \<^verbatim>\<open>None\<close>.
\<close>

definition candidates :: "real \<Rightarrow> nat \<Rightarrow> nat list \<Rightarrow> pred_row list \<Rightarrow> py_error + cand list" where
  "candidates conf_thres nc classes x0 =
     (let x = obj_filter conf_thres x0 in
      if x = [] then Inr []
      else
        (let x = map compute_conf x;
             multi_label = (1 < nc)
         in case (if multi_label then Inr (concat (map (multi_label_rows conf_thres) x))
                  else (case best_class_rows x of
                          Inl e \<Rightarrow> Inl e
                        | Inr cs \<Rightarrow> Inr (filter (\<lambda>(b, conf, j). conf_thres < conf) cs))) of
              Inl e \<Rightarrow> Inl e
            | Inr cs \<Rightarrow>
                Inr (if classes \<noteq> [] then filter (\<lambda>(b, conf, j). j \<in> set classes) cs else cs)))"

text \<open>
  Whether the IoU of two boxes is greater than a threshold. The IoU is
  \<open>inter / (area1 + area2 - inter)\<close>, as in \<^verbatim>\<open>box_iou\<close>, and a comparison with the NaN
  of \<open>0/0\<close> is false.
\<close>

definition iou_gt :: "real \<Rightarrow> row4 \<Rightarrow> row4 \<Rightarrow> bool" where
  "iou_gt thres b1 b2 = (case box_iou_elem b1 b2 of None \<Rightarrow> False | Some v \<Rightarrow> thres < v)"

text \<open>
  Modelled from the spec: \<^verbatim>\<open>torchvision.ops.boxes.nms\<close>, which \<^verbatim>\<open>non_max_suppression\<close>
  calls, is not part of the repository. The spec describes it: accept the best box,
  remove all others whose IoU with it exceeds the threshold, repeat. \<open>nms_greedy\<close> does
  so on the indices of the boxes in the order of the visit, with \<open>ov i j\<close> for "the IoU
  of the boxes \<open>i\<close> and \<open>j\<close> exceeds the threshold".
\<close>

fun nms_greedy :: "(nat \<Rightarrow> nat \<Rightarrow> bool) \<Rightarrow> nat list \<Rightarrow> nat list" where
  "nms_greedy ov [] = []"
| "nms_greedy ov (i # rest) = i # nms_greedy ov (filter (\<lambda>j. \<not> ov i j) rest)"

text \<open>
  Modelled from the spec: the call \<^verbatim>\<open>torchvision.ops.boxes.nms(boxes, scores, iou_thres)\<close>
  of the absent library function. The spec describes it: sort by confidence descending,
  then suppress greedily; the result is the indices of the accepted boxes, by decreasing
  score, as the documentation of the library says as well. Boxes of equal score are
  visited by increasing index.
\<close>

definition nms :: "row4 list \<Rightarrow> real list \<Rightarrow> real \<Rightarrow> nat list" where
  "nms boxes scores iou_thres =
     nms_greedy (\<lambda>i j. iou_gt iou_thres (boxes ! i) (boxes ! j))
       (sort_key (\<lambda>i. - (scores ! i)) [0..<length boxes])"

text \<open>
  \<^verbatim>\<open>
  c = x[:, 5:6] * (0 if agnostic else max_wh)  # classes
  boxes, scores = x[:, :4] + c, x[:, 4]  # boxes (offset by class), scores
  \<close>
\<close>

fun offset_box :: "bool \<Rightarrow> cand \<Rightarrow> row4" where
  "offset_box agnostic ((x1, y1, x2, y2), conf, j) =
     (let c = real j * (if agnostic then 0 else max_wh) in (x1 + c, y1 + c, x2 + c, y2 + c))"

fun cand_box :: "cand \<Rightarrow> row4" where
  "cand_box (b, conf, j) = b"

fun cand_conf :: "cand \<Rightarrow> real" where
  "cand_conf (b, conf, j) = conf"

fun cand_cls :: "cand \<Rightarrow> nat" where
  "cand_cls (b, conf, j) = j"

text \<open>
  \<^verbatim>\<open>
  iou = box_iou(boxes[i], boxes) > iou_thres  # iou matrix
  weights = iou * scores[None]  # box weights
  x[i, :4] = torch.mm(weights, x[:, :4]).float() / weights.sum(1, keepdim=True)  # merged boxes
  if redundant:
      i = i[iou.sum(1) > 1]  # require redundancy
  \<close>
  \<open>merge_row\<close> is the row of \<^verbatim>\<open>iou\<close> and the merged box for one kept index \<open>k\<close>. The
  \<^verbatim>\<open>except\<close> branch answers an error of the device and has no counterpart here.
\<close>

definition iou_row :: "real \<Rightarrow> row4 list \<Rightarrow> nat \<Rightarrow> bool list" where
  "iou_row iou_thres boxes k = map (\<lambda>b. iou_gt iou_thres (boxes ! k) b) boxes"

definition merged_box :: "bool list \<Rightarrow> cand list \<Rightarrow> row4 option" where
  "merged_box iou x =
     (let weights = map2 (\<lambda>m c. (if m then 1 else 0) * cand_conf c) iou x;
          s = sum_list weights;
          col = (\<lambda>f. sum_list (map2 (\<lambda>w c. w * f (cand_box c)) weights x))
      in if s = 0 then None
         else Some (col (\<lambda>(x1, y1, x2, y2). x1) / s, col (\<lambda>(x1, y1, x2, y2). y1) / s,
                    col (\<lambda>(x1, y1, x2, y2). x2) / s, col (\<lambda>(x1, y1, x2, y2). y2) / s))"

text \<open>
  The rest of the loop body for one image with a detections matrix \<open>x\<close> of \<open>n > 0\<close> rows:
  \<^verbatim>\<open>
  i = torchvision.ops.boxes.nms(boxes, scores, iou_thres)
  if i.shape[0] > max_det:  # limit detections
      i = i[:max_det]
  if merge and (1 < n < 3E3):
      ...
  output[xi] = x[i]
  \<close>
  \<open>keep_indices\<close> is \<^verbatim>\<open>i\<close> before the merge step.
\<close>

definition keep_indices :: "real \<Rightarrow> bool \<Rightarrow> cand list \<Rightarrow> nat list" where
  "keep_indices iou_thres agnostic x =
     (let boxes = map (offset_box agnostic) x;
          scores = map cand_conf x;
          i = nms boxes scores iou_thres
      in if max_det < length i then take max_det i else i)"

definition suppress :: "real \<Rightarrow> bool \<Rightarrow> bool \<Rightarrow> cand list \<Rightarrow> det list" where
  "suppress iou_thres merge agnostic x =
     (let n = length x;
          boxes = map (offset_box agnostic) x;
          i = keep_indices iou_thres agnostic x
      in if merge \<and> 1 < n \<and> n < 3000 then
           (let redundant = True;
                i' = (if redundant
                      then filter (\<lambda>k. 1 < length (filter id (iou_row iou_thres boxes k))) i
                      else i)
            in map (\<lambda>k. (merged_box (iou_row iou_thres boxes k) x, cand_conf (x ! k), cand_cls (x ! k))) i')
         else map (\<lambda>k. (Some (cand_box (x ! k)), cand_conf (x ! k), cand_cls (x ! k))) i)"

text \<open>
  The loop over the images. \<^verbatim>\<open>output\<close> starts as \<^verbatim>\<open>[None] * prediction.shape[0]\<close>; an
  image that is skipped keeps \<^verbatim>\<open>None\<close>. The clock of
  \<^verbatim>\<open>if (time.time() - t) > time_limit: break\<close> is the parameter \<open>expired\<close>: whether the
  limit is exceeded when the image of index \<open>xi\<close> has been written.
\<close>

fun nms_loop ::
  "real \<Rightarrow> real \<Rightarrow> bool \<Rightarrow> nat list \<Rightarrow> bool \<Rightarrow> nat \<Rightarrow> (nat \<Rightarrow> bool) \<Rightarrow> nat \<Rightarrow>
     pred_row list list \<Rightarrow> py_error + det list option list" where
  "nms_loop conf_thres iou_thres merge classes agnostic nc expired xi [] = Inr []"
| "nms_loop conf_thres iou_thres merge classes agnostic nc expired xi (x # rest) =
     (case candidates conf_thres nc classes x of
        Inl e \<Rightarrow> Inl e
      | Inr cs \<Rightarrow>
          if cs = [] then
            (case nms_loop conf_thres iou_thres merge classes agnostic nc expired (Suc xi) rest of
               Inl e \<Rightarrow> Inl e
             | Inr out \<Rightarrow> Inr (None # out))
          else if expired xi then
            Inr (Some (suppress iou_thres merge agnostic cs) # map (\<lambda>_. None) rest)
          else
            (case nms_loop conf_thres iou_thres merge classes agnostic nc expired (Suc xi) rest of
               Inl e \<Rightarrow> Inl e
             | Inr out \<Rightarrow> Inr (Some (suppress iou_thres merge agnostic cs) # out)))"

text \<open>
  \<^verbatim>\<open>nc = prediction[0].shape[1] - 5\<close> raises on an empty batch. The number \<open>nc\<close> of the
  class columns is a parameter: every row of \<^verbatim>\<open>prediction\<close> has \<open>nc\<close> class scores.
\<close>

definition non_max_suppression ::
  "nat \<Rightarrow> pred_row list list \<Rightarrow> real \<Rightarrow> real \<Rightarrow> bool \<Rightarrow> nat list \<Rightarrow> bool \<Rightarrow> (nat \<Rightarrow> bool) \<Rightarrow>
     py_error + det list option list" where
  "non_max_suppression nc prediction conf_thres iou_thres merge classes agnostic expired =
     (if prediction = [] then Inl IndexError
      else nms_loop conf_thres iou_thres merge classes agnostic nc expired 0 prediction)"

section \<open>Average precision\<close>

text \<open>
  \<^verbatim>\<open>compute_ap(recall, precision)\<close> is written with functions of NumPy, which are not part
  of the repository. They are modelled after their documentation:
  \<^verbatim>\<open>np.maximum.accumulate\<close> is the running maximum, \<^verbatim>\<open>np.flip\<close> reverses,
  \<^verbatim>\<open>np.linspace(0, 1, 101)\<close> is the points \<open>k / 100\<close>, \<^verbatim>\<open>np.trapz(y, x)\<close> is the
  trapezoidal rule, and \<^verbatim>\<open>np.interp(x, xp, fp)\<close> is the piecewise linear interpolant of
  the points \<open>(xp, fp)\<close>, for increasing \<open>xp\<close>.
\<close>

fun acc_max :: "real \<Rightarrow> real list \<Rightarrow> real list" where
  "acc_max m [] = []"
| "acc_max m (v # vs) = max m v # acc_max (max m v) vs"

fun maximum_accumulate :: "real list \<Rightarrow> real list" where
  "maximum_accumulate [] = []"
| "maximum_accumulate (v # vs) = v # acc_max v vs"

definition linspace_0_1_101 :: "real list" where
  "linspace_0_1_101 = map (\<lambda>k. real k / 100) [0..<101]"

fun trapz :: "real list \<Rightarrow> real list \<Rightarrow> real" where
  "trapz (y0 # y1 # ys) (x0 # x1 # xs) = (x1 - x0) * (y1 + y0) / 2 + trapz (y1 # ys) (x1 # xs)"
| "trapz ys xs = 0"

text \<open>
  \<^verbatim>\<open>np.interp\<close> at one point \<open>v\<close>. Below the first sample point the value is \<open>fp[0]\<close>,
  above the last one it is \<open>fp[-1]\<close>. In between, NumPy looks for the index \<open>j\<close> with
  \<open>xp[j] \<le> v < xp[j + 1]\<close> and interpolates between the points \<open>j\<close> and \<open>j + 1\<close>; when no
  sample point is above \<open>v\<close>, \<open>j\<close> is the last index and the value is \<open>fp[-1]\<close>.
  \<open>interp_scan\<close> walks to the first sample point above \<open>v\<close>, which is NumPy's search on
  a non-decreasing \<open>xp\<close>.
\<close>

fun interp_scan :: "real \<Rightarrow> real list \<Rightarrow> real list \<Rightarrow> real" where
  "interp_scan v (x0 # x1 # xs) (f0 # f1 # fs) =
     (if x1 \<le> v then interp_scan v (x1 # xs) (f1 # fs)
      else if x0 = v then f0
      else (f1 - f0) / (x1 - x0) * (v - x0) + f0)"
| "interp_scan v xs (f0 # fs) = f0"
| "interp_scan v xs [] = 0"

definition interp1 :: "real \<Rightarrow> real list \<Rightarrow> real list \<Rightarrow> real" where
  "interp1 v xp fp =
     (if last xp < v then last fp
      else if v < hd xp then hd fp
      else interp_scan v xp fp)"

definition interp :: "real list \<Rightarrow> real list \<Rightarrow> real list \<Rightarrow> real list" where
  "interp x xp fp = map (\<lambda>v. interp1 v xp fp) x"

text \<open>
  \<^verbatim>\<open>
  def compute_ap(recall, precision):
      # Append sentinel values to beginning and end
      mrec = np.concatenate(([0.], recall, [min(recall[-1] + 1E-3, 1.)]))
      mpre = np.concatenate(([0.], precision, [0.]))

      # Compute the precision envelope
      mpre = np.flip(np.maximum.accumulate(np.flip(mpre)))

      # Integrate area under curve
      method = 'interp'  # methods: 'continuous', 'interp'
      if method == 'interp':
          x = np.linspace(0, 1, 101)  # 101-point interp (COCO)
          ap = np.trapz(np.interp(x, mrec, mpre), x)  # integrate
      else:  # 'continuous'
          i = np.where(mrec[1:] != mrec[:-1])[0]  # points where x axis (recall) changes
          ap = np.sum((mrec[i + 1] - mrec[i]) * mpre[i + 1])  # area under curve

      return ap
  \<close>
  \<^verbatim>\<open>recall[-1]\<close> raises on an empty curve, and \<^verbatim>\<open>np.interp\<close> raises when \<open>xp\<close> and \<open>fp\<close>
  differ in length.
\<close>

text \<open>The local \<^verbatim>\<open>method\<close> of the source is \<open>integration_method\<close>.\<close>

datatype ap_method = Interp | Continuous

definition integration_method :: ap_method where
  "integration_method = Interp"

definition mrec_of :: "real list \<Rightarrow> real list" where
  "mrec_of recall = [0] @ recall @ [min (last recall + 1 / 1000) 1]"

definition envelope :: "real list \<Rightarrow> real list" where
  "envelope precision = rev (maximum_accumulate (rev ([0] @ precision @ [0])))"

fun ap_continuous :: "real list \<Rightarrow> real list \<Rightarrow> real" where
  "ap_continuous (x0 # x1 # xs) (p0 # p1 # ps) =
     (if x1 \<noteq> x0 then (x1 - x0) * p1 else 0) + ap_continuous (x1 # xs) (p1 # ps)"
| "ap_continuous xs ps = 0"

definition ap_interp :: "real list \<Rightarrow> real list \<Rightarrow> real" where
  "ap_interp mrec mpre =
     (let x = linspace_0_1_101 in trapz (interp x mrec mpre) x)"

definition compute_ap :: "real list \<Rightarrow> real list \<Rightarrow> py_error + real" where
  "compute_ap recall precision =
     (if recall = [] then Inl IndexError
      else
        (let mrec = mrec_of recall;
             mpre = envelope precision
         in if integration_method = Interp then
              (if length mrec \<noteq> length mpre then Inl ValueError
               else Inr (ap_interp mrec mpre))
            else Inr (ap_continuous mrec mpre)))"

section \<open>Predicates of the properties\<close>

text \<open>Boxes in corner format: well-formed, and with an intersection of area zero.\<close>

fun wf_box :: "row4 \<Rightarrow> bool" where
  "wf_box (x1, y1, x2, y2) = (x1 \<le> x2 \<and> y1 \<le> y2)"

fun disjoint_boxes :: "row4 \<Rightarrow> row4 \<Rightarrow> bool" where
  "disjoint_boxes (a_x1, a_y1, a_x2, a_y2) (b_x1, b_y1, b_x2, b_y2) =
     (a_x2 \<le> b_x1 \<or> b_x2 \<le> a_x1 \<or> a_y2 \<le> b_y1 \<or> b_y2 \<le> a_y1)"

text \<open>The corner coordinates \<^verbatim>\<open>bbox_iou\<close> computes with, for either box format.\<close>

definition corners :: "bool \<Rightarrow> row4 \<Rightarrow> row4" where
  "corners x1y1x2y2 b = (if x1y1x2y2 then b else xywh2xyxy_row b)"


text \<open>
  One row of the tensor \<open>t\<close> of \<^verbatim>\<open>build_targets\<close>: the target \<open>t\<close> with the anchor
  index \<open>a\<close> appended, in the grid units of a scale.
\<close>

definition scaled :: "real \<times> real \<Rightarrow> nat \<Rightarrow> row6 \<Rightarrow> row7" where
  "scaled gain a t = mul_gain gain (append_anchor t a)"

fun shape_gain :: "shape5 \<Rightarrow> real \<times> real" where
  "shape_gain (bs, pa, ny, nx, no) = (real nx, real ny)"

text \<open>The box \<open>(x, y, w, h)\<close> of a target in the grid units of a scale.\<close>

fun grid_box :: "shape5 \<Rightarrow> row6 \<Rightarrow> row4" where
  "grid_box (bs, pa, ny, nx, no) (b, c, x, y, w, h) =
     (x * real nx, y * real ny, w * real nx, h * real ny)"

text \<open>
  The shape-ratio condition of the specification: \<open>max(r, 1/r)\<close> is below the threshold
  for the ratio \<open>r\<close> of the widths and for the ratio of the heights. For \<open>r = 0\<close> the
  inverse is infinite.
\<close>

definition ratio_lt :: "real \<Rightarrow> real \<Rightarrow> bool" where
  "ratio_lt anchor_t r = (r \<noteq> 0 \<and> max r (1 / r) < anchor_t)"

fun within_ratio :: "real \<Rightarrow> row4 \<Rightarrow> real \<times> real \<Rightarrow> bool" where
  "within_ratio anchor_t (x, y, w, h) (aw, ah) =
     (ratio_lt anchor_t (w / aw) \<and> ratio_lt anchor_t (h / ah))"

text \<open>The rows of scale \<open>i\<close>, and the output lists made of the rows of a scale.\<close>

definition scale_of ::
  "shape5 list \<Rightarrow> row6 list \<Rightarrow> detect \<Rightarrow> real \<Rightarrow> nat \<Rightarrow> (row7 \<times> real \<times> real) list" where
  "scale_of p targets det anchor_t i =
     projr (scale_rows (det_na det) anchor_t (det_anchors det ! i) (p ! i) targets)"

definition mk_scale :: "(real \<times> real) list \<Rightarrow> (row7 \<times> real \<times> real) list \<Rightarrow> scale_out" where
  "mk_scale anchors_i rows =
     \<lparr> s_tcls = map row_c rows, s_tbox = map row_tbox rows,
       s_indices = (map row_b rows, map row_a rows, map row_gj rows, map row_gi rows),
       s_anch = map (\<lambda>r. anchors_i ! nat (row_a r)) rows, s_ttar = map row_ttar rows \<rparr>"

text \<open>
  The shape \<open>(bs, n, 5 + nc)\<close> of the tensor \<^verbatim>\<open>prediction\<close>: every row has \<open>nc\<close> class
  scores.
\<close>

definition wf_prediction :: "nat \<Rightarrow> pred_row list list \<Rightarrow> bool" where
  "wf_prediction nc prediction =
     list_all (list_all (\<lambda>(b, obj, cls). length cls = nc)) prediction"

text \<open>
  A row of the detections matrix stems from a row of the image: the objectness of that
  row is above the threshold, and the confidence is the class score times the
  objectness.
\<close>

fun stems_from :: "real \<Rightarrow> cand \<Rightarrow> pred_row \<Rightarrow> bool" where
  "stems_from conf_thres (bx, conf, j) (b, obj, cls) =
     (conf_thres < obj \<and> j < length cls \<and> conf = cls ! j * obj \<and> bx = xywh2xyxy_row b)"

text \<open>
  A returned detection is sound for an image: its confidence is above the threshold and
  is the product of the objectness and the class score of a row of the image whose
  objectness is above the threshold.
\<close>

fun det_sound :: "real \<Rightarrow> pred_row list \<Rightarrow> det \<Rightarrow> bool" where
  "det_sound conf_thres img (bx, conf, j) =
     (conf_thres < conf \<and>
      (\<exists>(b, obj, cls)\<in>set img. conf_thres < obj \<and> j < length cls \<and> conf = cls ! j * obj))"






text \<open>A clock that never exceeds the time limit.\<close>

definition never_expired :: "nat \<Rightarrow> bool" where
  "never_expired xi = False"


section \<open>Properties of the geometric primitives\<close>

text \<open>
  C3. For every \<open>n \<times> 4\<close> tensor \<open>b\<close> of boxes, \<open>xywh2xyxy (xyxy2xywh b)\<close> is \<open>b\<close>,
  element by element: the two conversions are inverse to each other.
\<close>

theorem xywh2xyxy_xyxy2xywh: "xywh2xyxy (xyxy2xywh b) = b"
proof -
  have "xywh2xyxy_row (xyxy2xywh_row r) = r" for r
    by (cases r) (simp add: field_simps)
  then show ?thesis
    by (simp add: xywh2xyxy_def xyxy2xywh_def map_idI)
qed


subsection \<open>Facts about intersections\<close>

lemma eps_pos: "0 < eps"
  by (simp add: eps_def)

lemma clamp0_nonneg: "0 \<le> clamp0 v"
  by (simp add: clamp0_def)

lemma box_inter_nonneg: "0 \<le> box_inter a b"
  by (cases a; cases b) (simp add: clamp0_nonneg)

lemma box_inter_le_left: "wf_box a \<Longrightarrow> box_inter a b \<le> box_area a"
  by (cases a; cases b) (auto simp: clamp0_def intro!: mult_mono)

lemma box_inter_le_right: "wf_box b \<Longrightarrow> box_inter a b \<le> box_area b"
  by (cases a; cases b) (auto simp: clamp0_def intro!: mult_mono)

lemma box_inter_self: "wf_box b \<Longrightarrow> box_inter b b = box_area b"
  by (cases b) (auto simp: clamp0_def)

lemma box_inter_disjoint:
  "disjoint_boxes a b \<Longrightarrow> wf_box a \<Longrightarrow> wf_box b \<Longrightarrow> box_inter a b = 0"
  by (cases a; cases b) (auto simp: clamp0_def)

lemma box_area_nonneg: "wf_box b \<Longrightarrow> 0 \<le> box_area b"
  by (cases b) simp

lemma bbox_iou_plain:
  "bbox_iou b1 b2 f False False False =
     fdiv (box_inter (corners f b1) (corners f b2))
       ((box_area (corners f b1) + eps) + box_area (corners f b2)
          - box_inter (corners f b1) (corners f b2))"
  by (cases "corners f b1"; cases "corners f b2")
     (simp add: bbox_iou_def corners_def Let_def split: if_splits)

subsection \<open>C4: the epsilon in the denominators\<close>

text \<open>
  C4 says that every division of \<^verbatim>\<open>bbox_iou\<close>, \<^verbatim>\<open>box_iou\<close> and \<^verbatim>\<open>wh_iou\<close> has
  \<^verbatim>\<open>1e-16\<close> added to its denominator, so that no denominator is zero, zero-area boxes
  included. In the source only the union, the convex area, the convex diagonal and
  \<open>alpha\<close> of \<^verbatim>\<open>bbox_iou\<close> carry the epsilon. On two boxes of zero area the denominator
  of \<^verbatim>\<open>box_iou\<close> and of \<^verbatim>\<open>wh_iou\<close> is zero (the quotient is \<open>0/0\<close>), and so is the
  denominator \<open>h\<close> of the aspect ratio \<open>w / h\<close> in the CIoU branch of \<^verbatim>\<open>bbox_iou\<close>.
\<close>

theorem iou_division_by_zero:
  "box_iou [(0, 0, 0, 0)] [(0, 0, 0, 0)] = [[None]] \<and>
   wh_iou [(0, 0)] [(0, 0)] = [[None]] \<and>
   bbox_iou (0, 0, 0, 0) (0, 0, 0, 0) True False False True = None \<and>
   bbox_iou (0, 0, 0, 0) (0, 0, 0, 0) True False False False = Some 0"
  by (simp add: box_iou_def box_iou_elem_def wh_iou_def bbox_iou_def fdiv_def clamp0_def
      atan_div_def eps_def)

subsection \<open>C5: the values of the plain IoU\<close>

text \<open>
  C5 as stated says that plain \<^verbatim>\<open>bbox_iou\<close> returns exactly 1 on identical well-formed
  boxes. The epsilon in its union makes the value \<open>area / (area + 1e-16)\<close>: on the
  square of side \<open>1e-5\<close> it is \<open>1000000/1000001\<close>.
\<close>

theorem bbox_iou_identical_counterexample:
  "wf_box (0, 0, 1 / 10 ^ 5, 1 / 10 ^ 5) \<and>
   bbox_iou (0, 0, 1 / 10 ^ 5, 1 / 10 ^ 5) (0, 0, 1 / 10 ^ 5, 1 / 10 ^ 5) True False False False
     = Some (1000000 / 1000001) \<and>
   bbox_iou (0, 0, 1 / 10 ^ 5, 1 / 10 ^ 5) (0, 0, 1 / 10 ^ 5, 1 / 10 ^ 5) True False False False
     \<noteq> Some 1"
  by (simp add: bbox_iou_plain corners_def clamp0_def eps_def fdiv_def)

text \<open>
  C5, amended. For well-formed boxes \<open>b1\<close>, \<open>b2\<close> (in either format of \<^verbatim>\<open>bbox_iou\<close>):
  plain \<^verbatim>\<open>bbox_iou\<close> of \<open>b1\<close> with itself is \<open>area / (area + 1e-16)\<close>, which is below 1;
  \<^verbatim>\<open>box_iou\<close> of a box of positive area with itself is exactly 1; on disjoint boxes
  plain \<^verbatim>\<open>bbox_iou\<close> is 0, and so is \<^verbatim>\<open>box_iou\<close> when the boxes are not both of zero
  area; plain \<^verbatim>\<open>bbox_iou\<close> always returns a value in \<open>[0, 1]\<close>, and so does \<^verbatim>\<open>box_iou\<close>
  when the boxes are not both of zero area; the GIoU, DIoU and CIoU variants are
  negative on some well-formed boxes.
\<close>

theorem iou_values:
  assumes "wf_box (corners f b1)" and "wf_box (corners f b2)" and "wf_box c1" and "wf_box c2"
  shows "bbox_iou b1 b1 f False False False
           = Some (box_area (corners f b1) / (box_area (corners f b1) + eps)) \<and>
         box_area (corners f b1) / (box_area (corners f b1) + eps) < 1 \<and>
         (0 < box_area c1 \<longrightarrow> box_iou_elem c1 c1 = Some 1) \<and>
         (disjoint_boxes (corners f b1) (corners f b2) \<longrightarrow>
            bbox_iou b1 b2 f False False False = Some 0) \<and>
         (disjoint_boxes c1 c2 \<and> 0 < box_area c1 + box_area c2 \<longrightarrow>
            box_iou_elem c1 c2 = Some 0) \<and>
         (\<exists>v. bbox_iou b1 b2 f False False False = Some v \<and> 0 \<le> v \<and> v \<le> 1) \<and>
         (0 < box_area c1 + box_area c2 \<longrightarrow>
            (\<exists>v. box_iou_elem c1 c2 = Some v \<and> 0 \<le> v \<and> v \<le> 1)) \<and>
         (\<exists>d1 d2 g. wf_box d1 \<and> wf_box d2 \<and> g < 0 \<and>
            bbox_iou d1 d2 True True False False = Some g) \<and>
         (\<exists>d1 d2 g. wf_box d1 \<and> wf_box d2 \<and> g < 0 \<and>
            bbox_iou d1 d2 True False True False = Some g) \<and>
         (\<exists>d1 d2 g. wf_box d1 \<and> wf_box d2 \<and> g < 0 \<and>
            bbox_iou d1 d2 True False False True = Some g)"
proof -
  let ?a1 = "box_area (corners f b1)" and ?a2 = "box_area (corners f b2)"
  let ?i = "box_inter (corners f b1) (corners f b2)"
  have a1: "0 \<le> ?a1" and a2: "0 \<le> ?a2"
    using assms by (simp_all add: box_area_nonneg)
  have i0: "0 \<le> ?i" by (rule box_inter_nonneg)
  have i1: "?i \<le> ?a1" using assms(1) by (rule box_inter_le_left)
  have i2: "?i \<le> ?a2" using assms(2) by (rule box_inter_le_right)
  have same: "bbox_iou b1 b1 f False False False = Some (?a1 / (?a1 + eps))"
    using a1 eps_pos assms(1) by (simp add: bbox_iou_plain box_inter_self fdiv_def)
  have below: "?a1 / (?a1 + eps) < 1"
    using a1 eps_pos by simp
  have disj: "bbox_iou b1 b2 f False False False = Some 0"
    if "disjoint_boxes (corners f b1) (corners f b2)"
    using that assms(1,2) a1 a2 eps_pos by (simp add: bbox_iou_plain box_inter_disjoint fdiv_def)
  have range: "\<exists>v. bbox_iou b1 b2 f False False False = Some v \<and> 0 \<le> v \<and> v \<le> 1"
  proof -
    have pos: "0 < (?a1 + eps) + ?a2 - ?i" using a1 i2 eps_pos by linarith
    have le: "?i \<le> (?a1 + eps) + ?a2 - ?i" using a2 i1 i2 eps_pos by linarith
    show ?thesis using pos le i0 by (simp add: bbox_iou_plain fdiv_def)
  qed
  have c1: "0 \<le> box_area c1" and c2: "0 \<le> box_area c2"
    using assms by (simp_all add: box_area_nonneg)
  have j0: "0 \<le> box_inter c1 c2" by (rule box_inter_nonneg)
  have j1: "box_inter c1 c2 \<le> box_area c1" using assms(3) by (rule box_inter_le_left)
  have j2: "box_inter c1 c2 \<le> box_area c2" using assms(4) by (rule box_inter_le_right)
  have one: "box_iou_elem c1 c1 = Some 1" if "0 < box_area c1"
    using that assms(3) by (simp add: box_iou_elem_def box_inter_self fdiv_def Let_def)
  have zero: "box_iou_elem c1 c2 = Some 0"
    if "disjoint_boxes c1 c2 \<and> 0 < box_area c1 + box_area c2"
    using that assms(3,4) by (simp add: box_iou_elem_def box_inter_disjoint fdiv_def Let_def)
  have range': "\<exists>v. box_iou_elem c1 c2 = Some v \<and> 0 \<le> v \<and> v \<le> 1"
    if "0 < box_area c1 + box_area c2"
  proof -
    have pos: "0 < box_area c1 + box_area c2 - box_inter c1 c2"
      using that c1 c2 j1 j2 by linarith
    have le: "box_inter c1 c2 \<le> box_area c1 + box_area c2 - box_inter c1 c2"
      using c1 c2 j1 j2 by linarith
    show ?thesis using pos le j0 by (simp add: box_iou_elem_def fdiv_def Let_def)
  qed
  have giou: "bbox_iou (0, 0, 1, 1) (2, 2, 3, 3) True True False False = Some (- (7 / (9 + eps)))"
    by (simp add: bbox_iou_def fdiv_def clamp0_def Let_def) (simp add: eps_def)
  have diou: "bbox_iou (0, 0, 1, 1) (2, 2, 3, 3) True False True False = Some (- (8 / (18 + eps)))"
    by (simp add: bbox_iou_def fdiv_def clamp0_def Let_def) (simp add: eps_def)
  have ciou: "bbox_iou (0, 0, 1, 1) (2, 2, 3, 3) True False False True = Some (- (8 / (18 + eps)))"
    by (simp add: bbox_iou_def fdiv_def clamp0_def Let_def atan_div_def) (simp add: eps_def)
  have neg7: "- (7 / (9 + eps)) < 0" and neg8: "- (8 / (18 + eps)) < 0"
    using eps_pos by simp_all
  have wf: "wf_box (0, 0, 1, 1)" "wf_box (2, 2, 3, 3)" by simp_all
  have g: "\<exists>d1 d2 g. wf_box d1 \<and> wf_box d2 \<and> g < 0 \<and>
            bbox_iou d1 d2 True True False False = Some g"
    using wf neg7 giou by blast
  have d: "\<exists>d1 d2 g. wf_box d1 \<and> wf_box d2 \<and> g < 0 \<and>
            bbox_iou d1 d2 True False True False = Some g"
    using wf neg8 diou by blast
  have c: "\<exists>d1 d2 g. wf_box d1 \<and> wf_box d2 \<and> g < 0 \<and>
            bbox_iou d1 d2 True False False True = Some g"
    using wf neg8 ciou by blast
  show ?thesis
    using same below one disj zero range range' g d c by blast
qed

theorem iou_values_witness:
  "wf_box (corners True (0, 0, 2, 2)) \<and> wf_box (corners True (2, 0, 3, 1)) \<and>
   wf_box (0, 0, 2, 2) \<and> wf_box (2, 0, 3, 1) \<and>
   disjoint_boxes (0, 0, 2, 2) (2, 0, 3, 1) \<and> 0 < box_area (0, 0, 2, 2) \<and>
   bbox_iou (0, 0, 2, 2) (0, 0, 2, 2) True False False False = Some (4 / (4 + eps)) \<and>
   box_iou_elem (0, 0, 2, 2) (0, 0, 2, 2) = Some 1 \<and>
   bbox_iou (0, 0, 2, 2) (2, 0, 3, 1) True False False False = Some 0 \<and>
   box_iou_elem (0, 0, 2, 2) (2, 0, 3, 1) = Some 0"
  using iou_values [of True "(0, 0, 2, 2)" "(2, 0, 3, 1)" "(0, 0, 2, 2)" "(2, 0, 3, 1)"]
  by (simp add: corners_def)
section \<open>Properties of the target assignment\<close>

subsection \<open>The rows of a scale\<close>

lemma long_real: "long (real a) = int a"
  by (simp add: long_def)

lemma frac_numeral: "frac (numeral n :: real) = 0"
  by (simp add: frac_eq_0_iff)


lemma upt5: "[0..<5] = [0, 1, 2, 3, 4]"
  by (simp add: upt_rec)

lemma zip_map_upt:
  "length xs = n \<Longrightarrow> zip xs (map f [0..<n]) = map (\<lambda>a. (xs ! a, f a)) [0..<n]"
  by (rule nth_equalityI) simp_all

lemma shape_filter_alt:
  assumes "length anchors_i = n"
  shows "shape_filter anchor_t anchors_i (map (map (mul_gain gain)) (repeat_targets n targets)) =
     concat (map (\<lambda>a. filter (anchor_match anchor_t (anchors_i ! a)) (map (scaled gain a) targets)) [0..<n])"
  using assms unfolding scaled_def
  by (simp add: shape_filter_def repeat_targets_def zip_map_upt o_def)

lemma in_shape_filterD:
  assumes "length anchors_i = n"
    and "r \<in> set (shape_filter anchor_t anchors_i (map (map (mul_gain gain)) (repeat_targets n targets)))"
  shows "\<exists>a t. r = scaled gain a t \<and> a < n \<and> t \<in> set targets \<and> anchor_match anchor_t (anchors_i ! a) r"
proof -
  from assms(2) obtain a
    where a: "a < n"
      and r: "r \<in> set (filter (anchor_match anchor_t (anchors_i ! a)) (map (scaled gain a) targets))"
    unfolding shape_filter_alt [OF assms(1)] by auto
  from r obtain t where "t \<in> set targets" and "r = scaled gain a t"
    and "anchor_match anchor_t (anchors_i ! a) r"
    by auto
  with a show ?thesis by blast
qed

lemma in_expandD: "(t, ofs) \<in> set (expand gain ts) \<Longrightarrow> t \<in> set ts"
  by (auto simp: expand_def)

lemma row_a_scaled: "row_a (scaled gain a t, ofs) = int a"
  by (cases gain; cases t; cases ofs) (simp add: scaled_def long_real)

lemma shape_filter_delete:
  assumes "length anchors_i = n"
    and "\<forall>a<n. \<not> anchor_match anchor_t (anchors_i ! a) (scaled gain a t)"
  shows "shape_filter anchor_t anchors_i (map (map (mul_gain gain)) (repeat_targets n (ts1 @ t # ts2))) =
         shape_filter anchor_t anchors_i (map (map (mul_gain gain)) (repeat_targets n (ts1 @ ts2)))"
proof -
  have "map (\<lambda>a. filter (anchor_match anchor_t (anchors_i ! a)) (map (scaled gain a) (ts1 @ t # ts2))) [0..<n] =
        map (\<lambda>a. filter (anchor_match anchor_t (anchors_i ! a)) (map (scaled gain a) (ts1 @ ts2))) [0..<n]"
    using assms(2) by (intro map_cong refl) simp
  then show ?thesis
    unfolding shape_filter_alt [OF assms(1)] by (rule arg_cong)
qed

lemma anchor_match_within:
  "anchor_match anchor_t an t = within_ratio anchor_t (row_ttar (t, ofs)) an"
  by (cases an; cases t; cases ofs) (auto simp: ratio_lt_def Let_def)

lemma scale_rows_nonempty:
  "targets \<noteq> [] \<Longrightarrow> length anchors_i = n \<Longrightarrow>
   scale_rows n anchor_t anchors_i shp targets =
     Inr (expand (shape_gain shp)
       (shape_filter anchor_t anchors_i (map (map (mul_gain (shape_gain shp))) (repeat_targets n targets))))"
  by (cases shp) (simp add: scale_rows_def Let_def)

lemma scale_rows_empty:
  "0 < n \<Longrightarrow> scale_rows n anchor_t anchors_i shp [] = Inr []"
  by (cases shp) (simp add: scale_rows_def Let_def repeat_targets_def upt_conv_Cons)

lemma scale_rows_total:
  assumes "0 < n" and "length anchors_i = n"
  shows "\<exists>rows. scale_rows n anchor_t anchors_i shp targets = Inr rows \<and>
     (\<forall>row\<in>set rows. \<exists>a t ofs. row = (scaled (shape_gain shp) a t, ofs) \<and> a < n \<and>
         t \<in> set targets \<and> anchor_match anchor_t (anchors_i ! a) (scaled (shape_gain shp) a t))"
proof (cases "targets = []")
  case True
  then show ?thesis using assms(1) by (simp add: scale_rows_empty)
next
  case False
  let ?rows = "expand (shape_gain shp)
       (shape_filter anchor_t anchors_i (map (map (mul_gain (shape_gain shp))) (repeat_targets n targets)))"
  have "\<exists>a t ofs. row = (scaled (shape_gain shp) a t, ofs) \<and> a < n \<and>
         t \<in> set targets \<and> anchor_match anchor_t (anchors_i ! a) (scaled (shape_gain shp) a t)"
    if "row \<in> set ?rows" for row
  proof -
    obtain r ofs where row: "row = (r, ofs)" by (cases row)
    with that have "r \<in> set (shape_filter anchor_t anchors_i
        (map (map (mul_gain (shape_gain shp))) (repeat_targets n targets)))"
      by (auto dest: in_expandD)
    from in_shape_filterD [OF assms(2) this] row show ?thesis by blast
  qed
  then show ?thesis
    using False assms(2) by (simp add: scale_rows_nonempty)
qed

lemma build_scale_total:
  assumes "0 < n" and "length anchors_i = n"
  shows "\<exists>rows. scale_rows n anchor_t anchors_i shp targets = Inr rows \<and>
     build_scale n anchor_t anchors_i shp targets = Inr (mk_scale anchors_i rows)"
proof -
  from scale_rows_total [OF assms, of anchor_t shp targets] obtain rows
    where rows: "scale_rows n anchor_t anchors_i shp targets = Inr rows"
      and rp: "\<forall>row\<in>set rows. \<exists>a t ofs. row = (scaled (shape_gain shp) a t, ofs) \<and> a < n \<and>
         t \<in> set targets \<and> anchor_match anchor_t (anchors_i ! a) (scaled (shape_gain shp) a t)"
    by blast
  have "nat (row_a row) < length anchors_i" if "row \<in> set rows" for row
    using rp that assms(2) by (auto simp: row_a_scaled)
  then have "list_all (\<lambda>r. nat (row_a r) < length anchors_i) rows"
    by (simp add: list_all_iff)
  then show ?thesis
    using rows by (simp add: build_scale_def assemble_def mk_scale_def)
qed

lemma build_loop_foldl:
  assumes "\<forall>i\<in>set scales. i < length (det_anchors det) \<and> i < length p \<and>
      build_scale (det_na det) anchor_t (det_anchors det ! i) (p ! i) targets = Inr (f i)"
  shows "build_loop det anchor_t p targets scales acc = Inr (foldl append_scale acc (map f scales))"
  using assms by (induction scales arbitrary: acc) simp_all

lemma foldl_append_scale:
  "tcls (foldl append_scale acc ss) = tcls acc @ map s_tcls ss"
  "tbox (foldl append_scale acc ss) = tbox acc @ map s_tbox ss"
  "indices (foldl append_scale acc ss) = indices acc @ map s_indices ss"
  "anch (foldl append_scale acc ss) = anch acc @ map s_anch ss"
  "ttar (foldl append_scale acc ss) = ttar acc @ map s_ttar ss"
  by (induction ss arbitrary: acc) (simp_all add: append_scale_def)

lemma build_targets_total:
  assumes "wf_detect det" and "det_nl det \<le> length p"
  shows "\<exists>out. build_targets p targets det anchor_t = Inr out \<and>
     tcls out = map (\<lambda>i. map row_c (scale_of p targets det anchor_t i)) [0..<det_nl det] \<and>
     tbox out = map (\<lambda>i. map row_tbox (scale_of p targets det anchor_t i)) [0..<det_nl det] \<and>
     indices out = map (\<lambda>i. let rows = scale_of p targets det anchor_t i in
        (map row_b rows, map row_a rows, map row_gj rows, map row_gi rows)) [0..<det_nl det] \<and>
     anch out = map (\<lambda>i. map (\<lambda>r. det_anchors det ! i ! nat (row_a r)) (scale_of p targets det anchor_t i)) [0..<det_nl det] \<and>
     ttar out = map (\<lambda>i. map row_ttar (scale_of p targets det anchor_t i)) [0..<det_nl det]"
proof -
  let ?f = "\<lambda>i. mk_scale (det_anchors det ! i) (scale_of p targets det anchor_t i)"
  have na: "0 < det_na det" and len: "length (det_anchors det) = det_nl det"
    and each: "\<And>i. i < det_nl det \<Longrightarrow> length (det_anchors det ! i) = det_na det"
    using assms(1) by (auto simp: wf_detect_def list_all_length)
  have "build_scale (det_na det) anchor_t (det_anchors det ! i) (p ! i) targets = Inr (?f i)"
    if "i < det_nl det" for i
    using build_scale_total [OF na each [OF that], of anchor_t "p ! i" targets]
    by (auto simp: scale_of_def)
  then have "build_loop det anchor_t p targets [0..<det_nl det] acc =
      Inr (foldl append_scale acc (map ?f [0..<det_nl det]))" for acc
    using len assms(2) by (intro build_loop_foldl) auto
  then show ?thesis
    by (simp add: build_targets_def foldl_append_scale mk_scale_def o_def Let_def)
qed

lemma row_ttar_scaled: "row_ttar (scaled (shape_gain shp) a t, ofs) = grid_box shp t"
  by (cases shp; cases t; cases ofs) (simp add: scaled_def)

lemma scale_of_rows:
  assumes "wf_detect det" and "i < det_nl det" and "row \<in> set (scale_of p targets det anchor_t i)"
  shows "\<exists>a t ofs. row = (scaled (shape_gain (p ! i)) a t, ofs) \<and> a < det_na det \<and> t \<in> set targets \<and>
           anchor_match anchor_t (det_anchors det ! i ! a) (scaled (shape_gain (p ! i)) a t)"
proof -
  have na: "0 < det_na det" and each: "length (det_anchors det ! i) = det_na det"
    using assms(1,2) by (auto simp: wf_detect_def list_all_length)
  from scale_rows_total [OF na each, of anchor_t "p ! i" targets] assms(3)
  show ?thesis by (auto simp: scale_of_def)
qed

lemma scale_of_delete:
  assumes "wf_detect det" and "i < det_nl det"
    and "\<forall>an\<in>set (det_anchors det ! i). \<not> within_ratio anchor_t (grid_box (p ! i) t) an"
  shows "scale_of p (ts1 @ t # ts2) det anchor_t i = scale_of p (ts1 @ ts2) det anchor_t i"
proof -
  have na: "0 < det_na det" and each: "length (det_anchors det ! i) = det_na det"
    using assms(1,2) by (auto simp: wf_detect_def list_all_length)
  have no: "\<forall>a<det_na det. \<not> anchor_match anchor_t (det_anchors det ! i ! a) (scaled (shape_gain (p ! i)) a t)"
    using assms(3) each
    by (auto simp: anchor_match_within [where ofs = "(0, 0)"] row_ttar_scaled)
  have eq: "shape_filter anchor_t (det_anchors det ! i)
        (map (map (mul_gain (shape_gain (p ! i)))) (repeat_targets (det_na det) (ts1 @ t # ts2))) =
      shape_filter anchor_t (det_anchors det ! i)
        (map (map (mul_gain (shape_gain (p ! i)))) (repeat_targets (det_na det) (ts1 @ ts2)))"
    by (rule shape_filter_delete [OF each no])
  show ?thesis
  proof (cases "ts1 @ ts2 = []")
    case True
    then have "shape_filter anchor_t (det_anchors det ! i)
        (map (map (mul_gain (shape_gain (p ! i)))) (repeat_targets (det_na det) (ts1 @ t # ts2))) = []"
      using eq by (simp add: shape_filter_alt [OF each])
    then show ?thesis
      using True na each
      by (simp add: scale_of_def scale_rows_nonempty scale_rows_empty expand_def)
  next
    case False
    then show ?thesis
      using eq each by (simp add: scale_of_def scale_rows_nonempty)
  qed
qed

subsection \<open>C1: the shape-ratio threshold\<close>

text \<open>
  C1. For a well-formed detection module and one prediction tensor for each scale,
  \<^verbatim>\<open>build_targets\<close> returns, and at every scale \<open>i\<close> every assignment it emits (row \<open>k\<close>
  of the lists of the scale) pairs a box of a ground-truth target, in grid units, with
  the anchor of its anchor index, such that \<open>max(r, 1/r)\<close> is below
  \<^verbatim>\<open>model.hyp['anchor_t']\<close> for the ratio \<open>r\<close> of the widths and for the ratio of the
  heights. Consequently a ground-truth target whose ratio to every anchor of the scale
  violates the threshold receives no assignment at that scale: the output of the scale
  is the same as without that target.
\<close>

theorem shape_ratio_enforced:
  assumes "wf_detect det" and "det_nl det \<le> length p" and "i < det_nl det"
  shows "\<exists>out. build_targets p targets det anchor_t = Inr out \<and>
     length (anch out ! i) = length (ttar out ! i) \<and>
     (\<forall>k<length (ttar out ! i).
        within_ratio anchor_t (ttar out ! i ! k) (anch out ! i ! k) \<and>
        (case indices out ! i of (b, a, gj, gi) \<Rightarrow>
           nat (a ! k) < det_na det \<and> anch out ! i ! k = det_anchors det ! i ! nat (a ! k)) \<and>
        (\<exists>t\<in>set targets. ttar out ! i ! k = grid_box (p ! i) t)) \<and>
     (\<forall>ts1 t ts2.
        targets = ts1 @ t # ts2 \<and>
        (\<forall>an\<in>set (det_anchors det ! i). \<not> within_ratio anchor_t (grid_box (p ! i) t) an) \<longrightarrow>
        (\<exists>out'. build_targets p (ts1 @ ts2) det anchor_t = Inr out' \<and>
           tcls out' ! i = tcls out ! i \<and> tbox out' ! i = tbox out ! i \<and>
           indices out' ! i = indices out ! i \<and> anch out' ! i = anch out ! i \<and>
           ttar out' ! i = ttar out ! i))"
proof -
  from build_targets_total [OF assms(1,2), of targets anchor_t] obtain out
    where out: "build_targets p targets det anchor_t = Inr out"
      and f: "tcls out = map (\<lambda>i. map row_c (scale_of p targets det anchor_t i)) [0..<det_nl det]"
        "tbox out = map (\<lambda>i. map row_tbox (scale_of p targets det anchor_t i)) [0..<det_nl det]"
        "indices out = map (\<lambda>i. let rows = scale_of p targets det anchor_t i in
           (map row_b rows, map row_a rows, map row_gj rows, map row_gi rows)) [0..<det_nl det]"
        "anch out = map (\<lambda>i. map (\<lambda>r. det_anchors det ! i ! nat (row_a r))
           (scale_of p targets det anchor_t i)) [0..<det_nl det]"
        "ttar out = map (\<lambda>i. map row_ttar (scale_of p targets det anchor_t i)) [0..<det_nl det]"
    by blast
  let ?rows = "scale_of p targets det anchor_t i"
  have len: "length (anch out ! i) = length (ttar out ! i)"
    using assms(3) by (simp add: f)
  have rows: "within_ratio anchor_t (ttar out ! i ! k) (anch out ! i ! k) \<and>
        (case indices out ! i of (b, a, gj, gi) \<Rightarrow>
           nat (a ! k) < det_na det \<and> anch out ! i ! k = det_anchors det ! i ! nat (a ! k)) \<and>
        (\<exists>t\<in>set targets. ttar out ! i ! k = grid_box (p ! i) t)"
    if "k < length (ttar out ! i)" for k
  proof -
    have k: "k < length ?rows" using that assms(3) by (simp add: f)
    then have "?rows ! k \<in> set ?rows" by simp
    from scale_of_rows [OF assms(1,3) this] obtain a t ofs
      where row: "?rows ! k = (scaled (shape_gain (p ! i)) a t, ofs)" and a: "a < det_na det"
        and t: "t \<in> set targets"
        and m: "anchor_match anchor_t (det_anchors det ! i ! a) (scaled (shape_gain (p ! i)) a t)"
      by blast
    have "within_ratio anchor_t (row_ttar (?rows ! k)) (det_anchors det ! i ! nat (row_a (?rows ! k)))"
      using m by (simp add: row row_a_scaled anchor_match_within [where ofs = ofs])
    moreover have "nat (row_a (?rows ! k)) < det_na det"
      using a by (simp add: row row_a_scaled)
    moreover have "row_ttar (?rows ! k) = grid_box (p ! i) t"
      by (simp add: row row_ttar_scaled)
    ultimately show ?thesis
      using k t assms(3) by (auto simp: f Let_def)
  qed
  have del: "\<exists>out'. build_targets p (ts1 @ ts2) det anchor_t = Inr out' \<and>
           tcls out' ! i = tcls out ! i \<and> tbox out' ! i = tbox out ! i \<and>
           indices out' ! i = indices out ! i \<and> anch out' ! i = anch out ! i \<and>
           ttar out' ! i = ttar out ! i"
    if "targets = ts1 @ t # ts2 \<and>
        (\<forall>an\<in>set (det_anchors det ! i). \<not> within_ratio anchor_t (grid_box (p ! i) t) an)"
    for ts1 t ts2
  proof -
    have eq: "scale_of p targets det anchor_t i = scale_of p (ts1 @ ts2) det anchor_t i"
      using that scale_of_delete [OF assms(1,3), of anchor_t p t ts1 ts2] by simp
    from build_targets_total [OF assms(1,2), of "ts1 @ ts2" anchor_t] obtain out'
      where "build_targets p (ts1 @ ts2) det anchor_t = Inr out'"
        and "tcls out' = map (\<lambda>i. map row_c (scale_of p (ts1 @ ts2) det anchor_t i)) [0..<det_nl det]"
        "tbox out' = map (\<lambda>i. map row_tbox (scale_of p (ts1 @ ts2) det anchor_t i)) [0..<det_nl det]"
        "indices out' = map (\<lambda>i. let rows = scale_of p (ts1 @ ts2) det anchor_t i in
           (map row_b rows, map row_a rows, map row_gj rows, map row_gi rows)) [0..<det_nl det]"
        "anch out' = map (\<lambda>i. map (\<lambda>r. det_anchors det ! i ! nat (row_a r))
           (scale_of p (ts1 @ ts2) det anchor_t i)) [0..<det_nl det]"
        "ttar out' = map (\<lambda>i. map row_ttar (scale_of p (ts1 @ ts2) det anchor_t i)) [0..<det_nl det]"
      by blast
    then show ?thesis
      using assms(3) eq by (simp add: f)
  qed
  show ?thesis
    using out len rows del by blast
qed

theorem shape_ratio_enforced_witness:
  "wf_detect \<lparr>det_na = 1, det_nl = 1, det_anchors = [[(1, 1)]]\<rparr> \<and>
   det_nl \<lparr>det_na = 1, det_nl = 1, det_anchors = [[(1, 1)]]\<rparr> \<le> length [(1, 1, 8, 8, 6 :: nat)] \<and>
   (0 :: nat) < det_nl \<lparr>det_na = 1, det_nl = 1, det_anchors = [[(1, 1)]]\<rparr> \<and>
   \<not> within_ratio 4 (grid_box (1, 1, 8, 8, 6) (0, 0, 1 / 2, 1 / 2, 9 / 10, 9 / 10)) (1, 1) \<and>
   (\<exists>out out'.
      build_targets [(1, 1, 8, 8, 6)]
        [(0, 0, 1 / 4, 1 / 4, 1 / 10, 1 / 10), (0, 0, 1 / 2, 1 / 2, 9 / 10, 9 / 10)]
        \<lparr>det_na = 1, det_nl = 1, det_anchors = [[(1, 1)]]\<rparr> 4 = Inr out \<and>
      build_targets [(1, 1, 8, 8, 6)] [(0, 0, 1 / 4, 1 / 4, 1 / 10, 1 / 10)]
        \<lparr>det_na = 1, det_nl = 1, det_anchors = [[(1, 1)]]\<rparr> 4 = Inr out' \<and>
      ttar out' ! 0 = ttar out ! 0 \<and> indices out' ! 0 = indices out ! 0 \<and>
      length (anch out ! 0) = length (ttar out ! 0) \<and>
      (\<forall>k<length (ttar out ! 0). within_ratio 4 (ttar out ! 0 ! k) (anch out ! 0 ! k)))"
proof -
  let ?det = "\<lparr>det_na = 1, det_nl = 1, det_anchors = [[(1, 1)]]\<rparr>"
  let ?good = "(0, 0, 1 / 4, 1 / 4, 1 / 10, 1 / 10) :: row6"
  let ?bad = "(0, 0, 1 / 2, 1 / 2, 9 / 10, 9 / 10) :: row6"
  have wf: "wf_detect ?det" by (simp add: wf_detect_def)
  have le: "det_nl ?det \<le> length [(1, 1, 8, 8, 6 :: nat)]" by simp
  have i: "0 < det_nl ?det" by simp
  have bad: "\<not> within_ratio 4 (grid_box (1, 1, 8, 8, 6) ?bad) (1, 1)"
    by (simp add: ratio_lt_def)
  from shape_ratio_enforced [OF wf le i, of "[?good, ?bad]" 4] obtain out
    where out: "build_targets [(1, 1, 8, 8, 6)] [?good, ?bad] ?det 4 = Inr out"
      and len: "length (anch out ! 0) = length (ttar out ! 0)"
      and rows: "\<forall>k<length (ttar out ! 0). within_ratio 4 (ttar out ! 0 ! k) (anch out ! 0 ! k)"
      and del: "\<forall>ts1 t ts2.
        [?good, ?bad] = ts1 @ t # ts2 \<and>
        (\<forall>an\<in>set (det_anchors ?det ! 0). \<not> within_ratio 4 (grid_box ([(1, 1, 8, 8, 6)] ! 0) t) an) \<longrightarrow>
        (\<exists>out'. build_targets [(1, 1, 8, 8, 6)] (ts1 @ ts2) ?det 4 = Inr out' \<and>
           tcls out' ! 0 = tcls out ! 0 \<and> tbox out' ! 0 = tbox out ! 0 \<and>
           indices out' ! 0 = indices out ! 0 \<and> anch out' ! 0 = anch out ! 0 \<and>
           ttar out' ! 0 = ttar out ! 0)"
    by blast
  have "[?good, ?bad] = [?good] @ ?bad # [] \<and>
        (\<forall>an\<in>set (det_anchors ?det ! 0). \<not> within_ratio 4 (grid_box ([(1, 1, 8, 8, 6)] ! 0) ?bad) an)"
    using bad by simp
  with del obtain out' where "build_targets [(1, 1, 8, 8, 6)] ([?good] @ []) ?det 4 = Inr out'"
    and "indices out' ! 0 = indices out ! 0" and "ttar out' ! 0 = ttar out ! 0"
    by blast
  with wf le i bad out len rows show ?thesis
    by (intro conjI exI [of _ out] exI [of _ out']) simp_all
qed


subsection \<open>C9: no ground truth\<close>

text \<open>
  C9. When the tensor of targets is empty, \<^verbatim>\<open>build_targets\<close> does not raise: it
  returns the five lists with one entry for each scale, and every entry is empty (no
  class, no box target, no index, no anchor, no absolute target).
\<close>

theorem build_targets_no_targets:
  assumes "wf_detect det" and "det_nl det \<le> length p"
  shows "build_targets p [] det anchor_t =
     Inr \<lparr> tcls = replicate (det_nl det) [], tbox = replicate (det_nl det) [],
           indices = replicate (det_nl det) ([], [], [], []),
           anch = replicate (det_nl det) [], ttar = replicate (det_nl det) [] \<rparr>"
proof -
  have na: "0 < det_na det"
    using assms(1) by (simp add: wf_detect_def)
  have empty: "scale_of p [] det anchor_t i = []" for i
    using na by (simp add: scale_of_def scale_rows_empty)
  from build_targets_total [OF assms, of "[]" anchor_t] show ?thesis
    by (auto simp: empty map_replicate_const)
qed

theorem build_targets_no_targets_witness:
  "wf_detect \<lparr>det_na = 1, det_nl = 2, det_anchors = [[(1, 1)], [(2, 3)]]\<rparr> \<and>
   det_nl \<lparr>det_na = 1, det_nl = 2, det_anchors = [[(1, 1)], [(2, 3)]]\<rparr>
     \<le> length [(1, 1, 8, 8, 6 :: nat), (1, 1, 4, 4, 6)] \<and>
   build_targets [(1, 1, 8, 8, 6), (1, 1, 4, 4, 6)] []
     \<lparr>det_na = 1, det_nl = 2, det_anchors = [[(1, 1)], [(2, 3)]]\<rparr> 4 =
     Inr \<lparr> tcls = [[], []], tbox = [[], []], indices = [([], [], [], []), ([], [], [], [])],
           anch = [[], []], ttar = [[], []] \<rparr>"
proof -
  let ?det = "\<lparr>det_na = 1, det_nl = 2, det_anchors = [[(1, 1)], [(2, 3)]]\<rparr>"
  have wf: "wf_detect ?det" by (simp add: wf_detect_def)
  have le: "det_nl ?det \<le> length [(1, 1, 8, 8, 6 :: nat), (1, 1, 4, 4, 6)]" by simp
  show ?thesis
    using wf le build_targets_no_targets [OF wf le, of 4] by (simp add: numeral_2_eq_2)
qed

subsection \<open>The expansion of one candidate\<close>

lemma frac_nat_diff: "frac (real n - x) = (if frac x = 0 then 0 else 1 - frac x)"
proof -
  have fn: "frac (real n) = 0" by (simp add: frac_eq_0_iff)
  show ?thesis
  proof (cases "frac x = 0")
    case True
    have "frac x \<le> frac (real n)" by (simp only: True fn order_refl)
    from frac_diff_pos [OF this] have "frac (real n - x) = 0" by (simp only: True fn diff_zero)
    then show ?thesis using True by simp
  next
    case False
    have "frac (real n) < frac x" using frac_ge_0 [of x] False fn by linarith
    from frac_diff_neg [OF this] show ?thesis by (simp only: False fn if_False add_0)
  qed
qed

lemma expand_one:
  "expand gain [r] = map (\<lambda>d. (r, off ! d)) (filter (\<lambda>d. neighbours gain r ! d) [0..<5])"
  by (simp add: expand_def upt5)

lemma off_values:
  "off ! 0 = (0, 0)" "off ! Suc 0 = (1 / 2, 0)" "off ! 2 = (0, 1 / 2)" "off ! 3 = (- (1 / 2), 0)"
  "off ! 4 = (0, - (1 / 2))"
  by (simp_all add: off_def grid_g_def)

text \<open>
  What holds of the expansion of one surviving candidate \<open>r\<close> with centre \<open>(x, y)\<close> on a
  grid of \<open>nx \<times> ny\<close> cells: the origin cell comes first, no offset is diagonal, at most
  five rows are emitted, and at most three when no coordinate of the centre is integral;
  a centre with the fractional part 0.5 in both axes gives the origin cell alone, and a
  centre with the fractional part 0.2 in both axes, more than one cell away from the
  left and upper edges, gives the origin cell, the cell to the left and the cell above.
\<close>

lemma neighbour_expansion:
  fixes nx ny :: nat and b c x y w h a :: real
  defines "r \<equiv> (b, c, x, y, w, h, a)"
  defines "rows \<equiv> expand (real nx, real ny) [r]"
  shows "rows \<noteq> [] \<and> hd rows = (r, (0, 0))"
    and "length rows \<le> 5"
    and "set (map snd rows) \<subseteq> {(0, 0), (1 / 2, 0), (0, 1 / 2), (- (1 / 2), 0), (0, - (1 / 2))}"
    and "frac x \<noteq> 0 \<Longrightarrow> frac y \<noteq> 0 \<Longrightarrow> length rows \<le> 3"
    and "frac x = 1 / 2 \<Longrightarrow> frac y = 1 / 2 \<Longrightarrow> rows = [(r, (0, 0))]"
    and "frac x = 1 / 5 \<Longrightarrow> frac y = 1 / 5 \<Longrightarrow> 1 < x \<Longrightarrow> 1 < y \<Longrightarrow>
         rows = [(r, (0, 0)), (r, (1 / 2, 0)), (r, (0, 1 / 2))]"
proof -
  have rows: "rows = map (\<lambda>d. (r, off ! d)) (filter (\<lambda>d. neighbours (real nx, real ny) r ! d) [0..<5])"
    unfolding rows_def by (rule expand_one)
  show "rows \<noteq> [] \<and> hd rows = (r, (0, 0))"
    by (simp add: rows r_def upt5 off_values)
  show "length rows \<le> 5"
    unfolding rows using length_filter_le [of _ "[0..<5]"] by (simp del: neighbours.simps)
  show "set (map snd rows) \<subseteq> {(0, 0), (1 / 2, 0), (0, 1 / 2), (- (1 / 2), 0), (0, - (1 / 2))}"
    by (auto simp: rows upt5 off_values r_def)
  show "length rows \<le> 3" if "frac x \<noteq> 0" "frac y \<noteq> 0"
    using that by (auto simp: rows r_def upt5 grid_g_def frac_nat_diff)
  have nz: "v \<notin> \<int>" if "frac v = q" "0 < q" for v q :: real
    using that by (metis frac_gt_0_iff)
  show "rows = [(r, (0, 0))]" if "frac x = 1 / 2" "frac y = 1 / 2"
    using that nz [of x "1 / 2"] nz [of y "1 / 2"]
    by (simp add: rows r_def upt5 grid_g_def frac_nat_diff off_values)
  show "rows = [(r, (0, 0)), (r, (1 / 2, 0)), (r, (0, 1 / 2))]"
    if "frac x = 1 / 5" "frac y = 1 / 5" "1 < x" "1 < y"
    using that nz [of x "1 / 5"] nz [of y "1 / 5"]
    by (simp add: rows r_def upt5 grid_g_def frac_nat_diff off_values)
qed

subsection \<open>C2: the expansion to neighbouring cells\<close>

text \<open>
  C2 says that a surviving candidate yields at most three assignments. For a target
  centred at \<open>(0.5, 0.5)\<close> on a grid of \<open>8 \<times> 8\<close> cells, whose centre \<open>(4, 4)\<close> in grid units
  has the fractional part 0 in both axes, all four neighbour conditions hold (the
  remainders of \<open>gxy\<close> and of \<open>gxi\<close> are both 0), and \<^verbatim>\<open>build_targets\<close> emits five
  assignments for the one matching anchor: the origin cell \<open>(4, 4)\<close> three times (the
  offsets \<open>-0.5\<close> lead back into it), the cell to the left and the cell above.
\<close>

theorem build_targets_five_assignments:
  "build_targets [(1, 1, 8, 8, 6)] [(0, 0, 1 / 2, 1 / 2, 1 / 10, 1 / 10)]
     \<lparr>det_na = 1, det_nl = 1, det_anchors = [[(1, 1)]]\<rparr> 4 =
   Inr \<lparr> tcls = [[0, 0, 0, 0, 0]],
         tbox = [[(0, 0, 4 / 5, 4 / 5), (1, 0, 4 / 5, 4 / 5), (0, 1, 4 / 5, 4 / 5),
                  (0, 0, 4 / 5, 4 / 5), (0, 0, 4 / 5, 4 / 5)]],
         indices = [([0, 0, 0, 0, 0], [0, 0, 0, 0, 0], [4, 4, 3, 4, 4], [4, 3, 4, 4, 4])],
         anch = [[(1, 1), (1, 1), (1, 1), (1, 1), (1, 1)]],
         ttar = [[(4, 4, 4 / 5, 4 / 5), (4, 4, 4 / 5, 4 / 5), (4, 4, 4 / 5, 4 / 5),
                  (4, 4, 4 / 5, 4 / 5), (4, 4, 4 / 5, 4 / 5)]] \<rparr>"
  by (simp add: build_targets_def build_scale_def scale_rows_def repeat_targets_def
      shape_filter_def expand_def upt5 off_def grid_g_def assemble_def append_scale_def
      long_def frac_numeral Let_def)
section \<open>Properties of the non-maximum suppression\<close>

lemma argmax_props:
  assumes "xs \<noteq> []"
  shows "argmax xs < length xs \<and> xs ! argmax xs = Max (set xs)"
proof -
  have "Max (set xs) \<in> set xs" using assms by (intro Max_in) simp_all
  then obtain j where j: "j < length xs" "xs ! j = Max (set xs)"
    by (auto simp: in_set_conv_nth)
  then have ne: "filter (\<lambda>j. xs ! j = Max (set xs)) [0..<length xs] \<noteq> []"
    by (auto simp: filter_empty_conv)
  then have "hd (filter (\<lambda>j. xs ! j = Max (set xs)) [0..<length xs])
      \<in> set (filter (\<lambda>j. xs ! j = Max (set xs)) [0..<length xs])"
    by (rule hd_in_set)
  then show ?thesis by (simp add: argmax_def)
qed

lemma multi_label_rows_stem:
  assumes "c \<in> set (multi_label_rows conf_thres (compute_conf r))" and "r \<in> set (obj_filter conf_thres x0)"
  shows "conf_thres < cand_conf c \<and> stems_from conf_thres c r"
  using assms by (cases r; cases c) (auto simp: obj_filter_def)

lemma best_class_row_stem:
  assumes "best_class_row (compute_conf r) = Inr c" and "r \<in> set (obj_filter conf_thres x0)"
  shows "stems_from conf_thres c r"
proof -
  obtain b obj cls where r: "r = (b, obj, cls)" by (cases r)
  have ne: "cls \<noteq> []" using assms(1) by (auto simp: r split: if_splits)
  then have ne': "map (\<lambda>s. s * obj) cls \<noteq> []" by simp
  from argmax_props [OF ne'] assms show ?thesis
    by (cases c) (auto simp: r obj_filter_def split: if_splits)
qed

lemma best_class_rows_stem:
  "best_class_rows (map compute_conf rs) = Inr cs \<Longrightarrow> set rs \<subseteq> set (obj_filter conf_thres x0) \<Longrightarrow>
   c \<in> set cs \<Longrightarrow> \<exists>r\<in>set rs. stems_from conf_thres c r"
proof (induction rs arbitrary: cs)
  case Nil
  then show ?case by simp
next
  case (Cons r rs)
  from Cons.prems(1) obtain c0 cs0 where c0: "best_class_row (compute_conf r) = Inr c0"
    and cs0: "best_class_rows (map compute_conf rs) = Inr cs0" and cs: "cs = c0 # cs0"
    by (auto split: sum.splits)
  show ?case
  proof (cases "c = c0")
    case True
    then show ?thesis using best_class_row_stem [OF c0, of conf_thres x0] Cons.prems(2) by auto
  next
    case False
    then have "c \<in> set cs0" using Cons.prems(3) cs by simp
    from Cons.IH [OF cs0 _ this] Cons.prems(2) show ?thesis by auto
  qed
qed

lemma best_class_rows_total:
  "list_all (\<lambda>(b, obj, cls). cls \<noteq> []) rs \<Longrightarrow> \<exists>cs. best_class_rows (map compute_conf rs) = Inr cs"
  by (induction rs) auto

lemma candidates_stem:
  assumes "candidates conf_thres nc classes x0 = Inr cs" and "c \<in> set cs"
  shows "conf_thres < cand_conf c \<and> (\<exists>r\<in>set x0. stems_from conf_thres c r)"
proof -
  let ?x = "obj_filter conf_thres x0"
  have sub: "set ?x \<subseteq> set x0" by (auto simp: obj_filter_def)
  show ?thesis
  proof (cases "1 < nc")
    case True
    with assms have "c \<in> set (concat (map (multi_label_rows conf_thres) (map compute_conf ?x)))"
      by (auto simp: candidates_def Let_def split: if_splits)
    then obtain r where "r \<in> set ?x" and "c \<in> set (multi_label_rows conf_thres (compute_conf r))"
      by auto
    with multi_label_rows_stem [of c conf_thres r x0] sub show ?thesis by blast
  next
    case False
    with assms obtain cs0 where cs0: "best_class_rows (map compute_conf ?x) = Inr cs0"
      and c: "c \<in> set (filter (\<lambda>(b, conf, j). conf_thres < conf) cs0)"
      by (auto simp: candidates_def Let_def split: if_splits sum.splits)
    from c have c0: "c \<in> set cs0" by simp
    obtain bx conf j where cc: "c = (bx, conf, j)" by (cases c)
    have gt: "conf_thres < cand_conf c" using c by (simp add: cc)
    from best_class_rows_stem [OF cs0 subset_refl c0] sub gt show ?thesis by blast
  qed
qed

lemma candidates_total:
  assumes "list_all (\<lambda>(b, obj, cls). length cls = nc) x0" and "0 < nc"
  shows "\<exists>cs. candidates conf_thres nc classes x0 = Inr cs"
proof -
  have "list_all (\<lambda>(b, obj, cls). cls \<noteq> []) (obj_filter conf_thres x0)"
    using assms by (auto simp: list_all_iff obj_filter_def)
  from best_class_rows_total [OF this] show ?thesis
    by (auto simp: candidates_def Let_def)
qed

lemma set_nms_greedy: "set (nms_greedy ov xs) \<subseteq> set xs"
  by (induction ov xs rule: nms_greedy.induct) auto

lemma set_nms: "set (nms boxes scores iou_thres) \<subseteq> {0..<length boxes}"
  using set_nms_greedy [of _ "sort_key (\<lambda>i. - (scores ! i)) [0..<length boxes]"]
  by (auto simp: nms_def)

lemma set_keep_indices: "set (keep_indices iou_thres agnostic x) \<subseteq> {0..<length x}"
  using set_nms [of "map (offset_box agnostic) x" "map cand_conf x" iou_thres]
  by (auto simp: keep_indices_def Let_def dest: in_set_takeD)

lemma suppress_rows:
  assumes "d \<in> set (suppress iou_thres merge agnostic x)"
  shows "\<exists>k<length x. snd d = (cand_conf (x ! k), cand_cls (x ! k))"
proof -
  from assms obtain k where "k \<in> set (keep_indices iou_thres agnostic x)"
    and "snd d = (cand_conf (x ! k), cand_cls (x ! k))"
    by (auto simp: suppress_def Let_def split: if_splits)
  with set_keep_indices [of iou_thres agnostic x] show ?thesis
    by (intro exI [of _ k]) auto
qed

lemma suppress_sound:
  assumes "candidates conf_thres nc classes x0 = Inr cs"
    and "d \<in> set (suppress iou_thres merge agnostic cs)"
  shows "det_sound conf_thres x0 d"
proof -
  from suppress_rows [OF assms(2)] obtain k where k: "k < length cs"
    and d: "snd d = (cand_conf (cs ! k), cand_cls (cs ! k))"
    by blast
  from k have "cs ! k \<in> set cs" by simp
  from candidates_stem [OF assms(1) this] obtain r where gt: "conf_thres < cand_conf (cs ! k)"
    and r: "r \<in> set x0" and st: "stems_from conf_thres (cs ! k) r"
    by blast
  obtain bx conf j where dd: "d = (bx, conf, j)" by (cases d)
  obtain cb cconf cj where cc: "cs ! k = (cb, cconf, cj)" by (cases "cs ! k")
  obtain b obj cls where rr: "r = (b, obj, cls)" by (cases r)
  from d gt st r show ?thesis
    unfolding dd cc rr by (auto intro!: bexI [of _ "(b, obj, cls)"])
qed

lemma nms_loop_sound:
  assumes "wf_prediction nc images" and "0 < nc"
  shows "\<exists>out. nms_loop conf_thres iou_thres merge classes agnostic nc expired xi images = Inr out \<and>
     length out = length images \<and>
     (\<forall>k<length images. \<forall>ds. out ! k = Some ds \<longrightarrow> (\<forall>d\<in>set ds. det_sound conf_thres (images ! k) d))"
  using assms(1)
proof (induction images arbitrary: xi)
  case Nil
  then show ?case by simp
next
  case (Cons x rest)
  from Cons.prems have wfx: "list_all (\<lambda>(b, obj, cls). length cls = nc) x"
    and wfr: "wf_prediction nc rest"
    by (simp_all add: wf_prediction_def)
  from candidates_total [OF wfx assms(2)] obtain cs
    where cs: "candidates conf_thres nc classes x = Inr cs" by blast
  from Cons.IH [OF wfr, of "Suc xi"] obtain out
    where out: "nms_loop conf_thres iou_thres merge classes agnostic nc expired (Suc xi) rest = Inr out"
      and len: "length out = length rest"
      and ok: "\<forall>k<length rest. \<forall>ds. out ! k = Some ds \<longrightarrow> (\<forall>d\<in>set ds. det_sound conf_thres (rest ! k) d)"
    by blast
  have here: "\<forall>d\<in>set (suppress iou_thres merge agnostic cs). det_sound conf_thres x d"
    using suppress_sound [OF cs] by blast
  consider (skip) "cs = []" | (break) "cs \<noteq> []" "expired xi" | (go) "cs \<noteq> []" "\<not> expired xi"
    by blast
  then show ?case
  proof cases
    case skip
    have "\<forall>k<length (x # rest). \<forall>ds. (None # out) ! k = Some ds \<longrightarrow>
        (\<forall>d\<in>set ds. det_sound conf_thres ((x # rest) ! k) d)"
      using ok by (auto simp: nth_Cons split: nat.splits)
    then show ?thesis using skip cs out len by simp
  next
    case break
    let ?o = "Some (suppress iou_thres merge agnostic cs) # map (\<lambda>_. None) rest"
    have "\<forall>k<length (x # rest). \<forall>ds. ?o ! k = Some ds \<longrightarrow>
        (\<forall>d\<in>set ds. det_sound conf_thres ((x # rest) ! k) d)"
      using here by (auto simp: nth_Cons split: nat.splits)
    then show ?thesis using break cs by simp
  next
    case go
    let ?o = "Some (suppress iou_thres merge agnostic cs) # out"
    have "\<forall>k<length (x # rest). \<forall>ds. ?o ! k = Some ds \<longrightarrow>
        (\<forall>d\<in>set ds. det_sound conf_thres ((x # rest) ! k) d)"
      using here ok by (auto simp: nth_Cons split: nat.splits)
    then show ?thesis using go cs out len by simp
  qed
qed

subsection \<open>C10: the confidence of a returned detection\<close>

text \<open>
  C10. For a non-empty batch with at least one class column, \<^verbatim>\<open>non_max_suppression\<close>
  returns one entry for each image, and every detection row of every entry has a final
  confidence (column 4) strictly greater than \<^verbatim>\<open>conf_thres\<close>, equal to the objectness
  times the class score of a row of that image whose objectness passed the first
  filter, in the multi-label branch and in the best-class branch alike.
\<close>

theorem nms_confidence_above_threshold:
  assumes "wf_prediction nc prediction" and "0 < nc" and "prediction \<noteq> []"
  shows "\<exists>out. non_max_suppression nc prediction conf_thres iou_thres merge classes agnostic expired = Inr out \<and>
     length out = length prediction \<and>
     (\<forall>xi<length prediction. \<forall>ds. out ! xi = Some ds \<longrightarrow>
        (\<forall>d\<in>set ds. det_sound conf_thres (prediction ! xi) d))"
  using nms_loop_sound [OF assms(1,2), of conf_thres iou_thres merge classes agnostic expired 0] assms(3)
  by (simp add: non_max_suppression_def)

lemma upt2: "[0..<2] = [0, 1]"
  by (simp add: upt_rec)



theorem nms_confidence_above_threshold_witness:
  "wf_prediction 2 [[((10, 10, 4, 4), 9 / 10, [8 / 10, 1 / 20]), ((10, 10, 4, 4), 1 / 20, [9 / 10, 9 / 10])]] \<and>
   (\<exists>out. non_max_suppression 2
       [[((10, 10, 4, 4), 9 / 10, [8 / 10, 1 / 20]), ((10, 10, 4, 4), 1 / 20, [9 / 10, 9 / 10])]]
       (1 / 10) (6 / 10) False [] False never_expired = Inr out \<and>
      out ! 0 = Some [(Some (8, 8, 12, 12), 18 / 25, 0)] \<and>
      det_sound (1 / 10)
        [((10, 10, 4, 4), 9 / 10, [8 / 10, 1 / 20]), ((10, 10, 4, 4), 1 / 20, [9 / 10, 9 / 10])]
        (Some (8, 8, 12, 12), 18 / 25, 0))"
proof -
  let ?p = "[[((10, 10, 4, 4), 9 / 10, [8 / 10, 1 / 20]), ((10, 10, 4, 4), 1 / 20, [9 / 10, 9 / 10])]]
    :: pred_row list list"
  have wf: "wf_prediction 2 ?p" by (simp add: wf_prediction_def)
  have ev: "non_max_suppression 2 ?p (1 / 10) (6 / 10) False [] False never_expired =
      Inr [Some [(Some (8, 8, 12, 12), 18 / 25, 0)]]"
    by (simp add: non_max_suppression_def candidates_def obj_filter_def upt2 suppress_def
        keep_indices_def nms_def max_det_def Let_def never_expired_def)
  from nms_confidence_above_threshold [OF wf, of "1 / 10" "6 / 10" False "[]" False never_expired]
  obtain out where out: "non_max_suppression 2 ?p (1 / 10) (6 / 10) False [] False never_expired = Inr out"
    and snd: "\<forall>xi<length ?p. \<forall>ds. out ! xi = Some ds \<longrightarrow> (\<forall>d\<in>set ds. det_sound (1 / 10) (?p ! xi) d)"
    by auto
  from out ev have o: "out = [Some [(Some (8, 8, 12, 12), 18 / 25, 0)]]" by simp
  with snd have "det_sound (1 / 10) (?p ! 0) (Some (8, 8, 12, 12), 18 / 25, 0)"
    by auto
  with wf out o show ?thesis by simp
qed





















subsection \<open>C7: greedy suppression\<close>





section \<open>Properties of the average precision\<close>

subsection \<open>The precision envelope\<close>

lemma acc_max_ge: "v \<in> set (acc_max m vs) \<Longrightarrow> m \<le> v"
proof (induction vs arbitrary: m)
  case Nil
  then show ?case by simp
next
  case (Cons a vs)
  from Cons.prems consider "v = max m a" | "v \<in> set (acc_max (max m a) vs)"
    by (simp only: acc_max.simps set_simps insert_iff) blast
  then show ?case
  proof cases
    case 1
    then show ?thesis by (simp only: max.cobounded1)
  next
    case 2
    then have "max m a \<le> v" by (rule Cons.IH)
    then show ?thesis by (rule max.boundedE)
  qed
qed

lemma acc_max_sorted: "sorted (acc_max m vs)"
proof (induction vs arbitrary: m)
  case Nil
  then show ?case by simp
next
  case (Cons a vs)
  have "\<forall>v\<in>set (acc_max (max m a) vs). max m a \<le> v"
    using acc_max_ge by blast
  with Cons show ?case by (simp only: acc_max.simps sorted_simps)
qed

lemma maximum_accumulate_sorted: "sorted (maximum_accumulate vs)"
proof (cases vs)
  case Nil
  then show ?thesis by simp
next
  case (Cons a vs')
  have "\<forall>v\<in>set (acc_max a vs'). a \<le> v"
    using acc_max_ge by blast
  with Cons acc_max_sorted [of a vs'] show ?thesis
    by (simp only: maximum_accumulate.simps sorted_simps)
qed

lemma envelope_nonincreasing: "sorted (rev (envelope precision))"
  unfolding envelope_def rev_rev_ident by (rule maximum_accumulate_sorted)

text \<open>
  The processed precision curve never increases with the recall: read backwards, the
  envelope is non-decreasing.
\<close>

lemma envelope_nonincreasing_nth:
  assumes "i \<le> j" and "j < length (envelope precision)"
  shows "envelope precision ! j \<le> envelope precision ! i"
proof -
  let ?e = "envelope precision"
  have "rev ?e ! (length ?e - Suc j) \<le> rev ?e ! (length ?e - Suc i)"
    using assms by (intro sorted_nth_mono envelope_nonincreasing) auto
  then show ?thesis
    using assms by (simp add: rev_nth)
qed

subsection \<open>The perfect detector\<close>

lemma length_acc_max: "length (acc_max m vs) = length vs"
  by (induction vs arbitrary: m) simp_all

lemma length_envelope: "length (envelope precision) = length precision + 2"
  by (simp add: envelope_def length_acc_max)

lemma acc_max_ones: "acc_max 1 (replicate n 1 @ [0]) = replicate (Suc n) 1"
  by (induction n) simp_all

lemma acc_max_zero_ones: "0 < k \<Longrightarrow> acc_max 0 (replicate k 1 @ [0]) = replicate (Suc k) 1"
  by (cases k) (simp_all add: acc_max_ones)

lemma rev_sentinels: "rev ([0] @ replicate k 1 @ [0 :: real]) = 0 # (replicate k 1 @ [0])"
  by (simp del: replicate_Suc)

lemma envelope_ones:
  assumes "0 < k"
  shows "envelope (replicate k 1) = replicate (Suc k) 1 @ [0]"
proof -
  have "maximum_accumulate (0 # (replicate k 1 @ [0])) = 0 # replicate (Suc k) 1"
    by (simp only: maximum_accumulate.simps acc_max_zero_ones [OF assms])
  then have "envelope (replicate k 1) = rev (0 # replicate (Suc k) 1)"
    by (simp only: envelope_def rev_sentinels)
  also have "\<dots> = replicate (Suc k) 1 @ [0]"
    by (simp only: rev.simps rev_replicate)
  finally show ?thesis .
qed

lemma all_ones: "\<forall>q\<in>set ps. q = (1::real) \<Longrightarrow> replicate (length ps) 1 = ps"
  by (induction ps) auto

lemma interp_scan_ones:
  "v < l \<Longrightarrow> interp_scan v (x0 # xs @ [l, s]) (replicate (Suc (Suc (length xs))) 1 @ [0]) = 1"
proof (induction xs arbitrary: x0)
  case Nil
  then show ?case by simp
next
  case (Cons x1 xs)
  then show ?case by simp
qed

lemma interp_scan_end:
  "\<forall>x\<in>set xs. x \<le> v \<Longrightarrow> length fs = length xs \<Longrightarrow>
   interp_scan v (x0 # xs) (f0 # fs) = last (f0 # fs)"
proof (induction xs arbitrary: x0 f0 fs)
  case Nil
  then show ?case by simp
next
  case (Cons x1 xs)
  then obtain f1 fs' where "fs = f1 # fs'" by (cases fs) auto
  with Cons show ?case by simp
qed

lemma trapz_ones:
  "0 < m \<Longrightarrow> trapz (replicate m 1 @ [0]) (map h [i..<i + m + 1]) =
     h (i + m - 1) - h i + (h (i + m) - h (i + m - 1)) / 2"
proof (induction m arbitrary: i)
  case 0
  then show ?case by simp
next
  case (Suc m)
  show ?case
  proof (cases "m = 0")
    case True
    then show ?thesis by (simp add: upt_rec [of i])
  next
    case False
    then obtain m' where m: "m = Suc m'" by (cases m) auto
    have up: "[i..<i + Suc m + 1] = i # Suc i # [Suc (Suc i)..<Suc i + m + 1]"
      by (simp add: upt_rec [of i] upt_rec [of "Suc i"] m)
    have up': "[Suc i..<Suc i + m + 1] = Suc i # [Suc (Suc i)..<Suc i + m + 1]"
      by (simp add: upt_rec [of "Suc i"] m)
    have "trapz (replicate (Suc m) 1 @ [0]) (map h [i..<i + Suc m + 1]) =
        (h (Suc i) - h i) + trapz (replicate m 1 @ [0]) (map h [Suc i..<Suc i + m + 1])"
      unfolding up up' by (simp add: m)
    also have "trapz (replicate m 1 @ [0]) (map h [Suc i..<Suc i + m + 1]) =
        h (Suc i + m - 1) - h (Suc i) + (h (Suc i + m) - h (Suc i + m - 1)) / 2"
      using False by (intro Suc.IH) simp
    finally show ?thesis by simp
  qed
qed

lemma upt101: "[0..<101] = [0..<100] @ [100]"
proof -
  have "[0..<Suc 100] = [0..<100] @ [100]" by (rule upt_Suc_append) simp
  moreover have "(101::nat) = Suc 100" by simp
  ultimately show ?thesis by (simp only:)
qed

lemma map_linspace:
  "map f (map (\<lambda>k. real k / 100) [0..<101]) = map (\<lambda>k. f (real k / 100)) [0..<100] @ [f 1]"
  unfolding upt101 by (simp add: o_def)

lemma compute_ap_perfect:
  assumes "recall \<noteq> []" and "length precision = length recall"
    and "\<forall>r\<in>set recall. r \<le> 1" and "last recall = 1" and "\<forall>q\<in>set precision. q = 1"
  shows "compute_ap recall precision = Inr (199 / 200)"
proof -
  let ?n = "length recall"
  obtain rs where rec: "recall = rs @ [1]"
    using assms(1,4) by (metis append_butlast_last_id)
  have mrec: "mrec_of recall = 0 # rs @ [1, 1]"
    by (simp add: mrec_of_def rec)
  have pre: "precision = replicate ?n 1"
    using all_ones [OF assms(5)] assms(2) by simp
  have n: "0 < ?n" using assms(1) by simp
  have mpre: "envelope precision = replicate (length rs + 2) 1 @ [0]"
    using envelope_ones [OF n] pre by (simp add: rec)
  have lt: "interp1 v (mrec_of recall) (envelope precision) = 1" if "0 \<le> v" "v < 1" for v
    using that by (simp add: interp1_def mrec mpre interp_scan_ones del: replicate_Suc)
  have rs1: "\<forall>x\<in>set (rs @ [1, 1]). x \<le> (1::real)"
    using assms(3) by (auto simp: rec)
  have one: "interp1 1 (mrec_of recall) (envelope precision) = 0"
  proof -
    have "replicate (length rs + 2) 1 @ [0 :: real] = 1 # (replicate (length rs + 1) 1 @ [0])"
      by simp
    moreover have "interp_scan 1 (0 # rs @ [1, 1]) (1 # (replicate (length rs + 1) 1 @ [0])) =
        last (1 # (replicate (length rs + 1) 1 @ [0]))"
      using rs1 by (intro interp_scan_end) simp_all
    ultimately show ?thesis
      by (simp add: interp1_def mrec mpre del: replicate_Suc)
  qed
  let ?M = "mrec_of recall" and ?P = "envelope precision"
  have "interp linspace_0_1_101 ?M ?P =
      map (\<lambda>k. interp1 (real k / 100) ?M ?P) [0..<100] @ [interp1 1 ?M ?P]"
    unfolding interp_def linspace_0_1_101_def by (rule map_linspace)
  also have "map (\<lambda>k. interp1 (real k / 100) ?M ?P) [0..<100] = map (\<lambda>k. 1) [0..<100]"
    by (rule map_cong) (simp_all add: lt)
  also have "map (\<lambda>k. 1 :: real) [0..<100] = replicate 100 1"
    by (simp only: map_replicate_const length_upt diff_zero)
  finally have y: "interp linspace_0_1_101 ?M ?P = replicate 100 1 @ [0]"
    by (simp only: one)
  have e: "0 + 100 + 1 = (101::nat)" "0 + 100 - 1 = (99::nat)" "0 + 100 = (100::nat)"
    "100 + 1 = (101::nat)" "100 - 1 = (99::nat)"
    by simp_all
  have pos: "(0::nat) < 100" by simp
  have "trapz (replicate 100 1 @ [0]) (map (\<lambda>k. real k / 100) [0..<101]) =
      real 99 / 100 - real 0 / 100 + (real 100 / 100 - real 99 / 100) / 2"
    using trapz_ones [OF pos, of "\<lambda>k. real k / 100" 0] by (simp only: e)
  also have "\<dots> = 199 / 200" by simp
  finally have "trapz (replicate 100 1 @ [0]) linspace_0_1_101 = 199 / 200"
    by (simp only: linspace_0_1_101_def)
  then have ap: "ap_interp ?M ?P = 199 / 200"
    by (simp only: ap_interp_def Let_def y)
  show ?thesis
    using assms(1,2) ap by (simp add: compute_ap_def integration_method_def Let_def length_envelope mrec_of_def)
qed

subsection \<open>C6: the average precision of a perfect detector\<close>

text \<open>
  C6 says that \<^verbatim>\<open>compute_ap\<close> returns 1.0 within \<open>1e-6\<close> for a perfect detector. For
  the recall curve \<open>[0.5, 1]\<close> with precision \<open>[1, 1]\<close> the sentinels make
  \<open>mrec = [0, 0.5, 1, 1]\<close> and the envelope \<open>mpre = [1, 1, 1, 0]\<close>; at the last of the 101
  points, \<open>x = 1\<close>, the interpolation reads the sentinel precision 0, and the trapezoidal
  rule returns \<open>0.995\<close>. The other integration method of the same function,
  \<^verbatim>\<open>'continuous'\<close>, gives 1 on these curves.
\<close>

theorem compute_ap_perfect_detector:
  "compute_ap [1 / 2, 1] [1, 1] = Inr (199 / 200) \<and>
   mrec_of [1 / 2, 1] = [0, 1 / 2, 1, 1] \<and> envelope [1, 1] = [1, 1, 1, 0] \<and>
   interp1 1 (mrec_of [1 / 2, 1]) (envelope [1, 1]) = 0 \<and>
   ap_continuous (mrec_of [1 / 2, 1]) (envelope [1, 1]) = 1"
proof -
  have "compute_ap [1 / 2, 1] [1, 1] = Inr (199 / 200)"
    by (rule compute_ap_perfect) simp_all
  moreover have "mrec_of [1 / 2, 1] = [0, 1 / 2, 1, 1]" and "envelope [1, 1] = [1, 1, 1, 0]"
    by (simp_all add: mrec_of_def envelope_def)
  ultimately show ?thesis
    by (simp add: interp1_def)
qed

end
